theory Spec2Isabelle
  imports Complex_Main
begin

section \<open>Data model of the payment tracker\<close>

text \<open>
  The embedding follows the incremental tracker with block safety buffer, corruption
  repair and conservative advance (the iteration that defines
  \<^verbatim>\<open>validateAndFixBlockNumber\<close> and \<^verbatim>\<open>CONSERVATIVE_BLOCK_ADVANCE\<close>).

  Block numbers, counters and timestamps are JavaScript numbers holding integers and are
  modelled as \<^typ>\<open>int\<close>; on such values \<^verbatim>\<open>parseInt(x) || 0\<close> is the identity.
  USDC amounts (\<^verbatim>\<open>parseFloat(tx.value) / 1e6\<close>) are modelled exactly, as
  rationals. A \<^verbatim>\<open>Date\<close> is its number of milliseconds; SQL \<^verbatim>\<open>NULL\<close> and
  JavaScript \<^verbatim>\<open>null\<close> are \<^const>\<open>None\<close>.
\<close>

record provider =
  namehash :: string
  full_name :: string
  provider_id :: string
  wallet_address :: string

record tba_info =
  fullName :: string
  tba_namehash :: string

type_synonym tba_lookup = "string \<rightharpoonup> tba_info"

text \<open>One element of the \<^verbatim>\<open>result\<close> array of the explorer's \<^verbatim>\<open>tokentx\<close> answer.\<close>

record raw_transfer =
  raw_hash :: string
  raw_blockNumber :: int
  raw_timeStamp :: int
  raw_from :: string
  raw_to :: string
  raw_value :: int
  raw_gasUsed :: int

record valid_transaction =
  txHash :: string
  blockNumber :: int
  timestamp :: int
  fromAddress :: string
  fromHypermapName :: string
  toAddress :: string
  toProviderId :: string
  valueUsdc :: rat
  gasUsed :: int

text \<open>
  The columns of \<^verbatim>\<open>provider_leaderboard\<close> that the tracker reads back. The identity
  columns (entry name, provider id, wallet) are copied from the provider when the row is
  created and never read again, and \<^verbatim>\<open>state_validation_hash\<close> is an MD5 digest of
  the other columns; they are left out. The table is a map from the entry namehash, its
  unique key.
\<close>

record provider_stats =
  last_processed_block :: int
  total_usdc_received :: rat
  transaction_count :: int
  unique_sender_count :: int
  first_transaction_at :: "int option"
  last_transaction_at :: "int option"
  last_transaction_block :: int
  processing_checkpoint :: int

datatype change_type = corruption_fix | conservative_advance | normal_advance

datatype error =
    ReferenceError string
  | UnreasonableBlock int
  | FetchFailed string
  | QueryRejected

datatype warning =
    CorruptionDetected string int int
  | BeforeFromBlock string int int

text \<open>
  The payments database together with what the process writes to \<^verbatim>\<open>console.warn\<close>.
  A row of \<^verbatim>\<open>hypermap_transactions\<close> is the validated transaction with the
  \<^verbatim>\<open>provider_entry_name\<close> column beside it; a row of \<^verbatim>\<open>block_processing_log\<close>
  is (namehash, entry name, old block, new block, change type). \<^verbatim>\<open>last_error\<close> is
  the column of \<^verbatim>\<open>tracker_state\<close>, holding the provider's name and the error whose
  message is stored. CHECK constraints added by the migration scripts are not part of
  the model: a statement the database rejects is an explicit fault parameter.
\<close>

record store =
  provider_leaderboard :: "string \<rightharpoonup> provider_stats"
  hypermap_transactions :: "(valid_transaction \<times> string) list"
  block_processing_log :: "(string \<times> string \<times> int \<times> int \<times> change_type) list"
  last_error :: "(string \<times> error) option"
  console_warn :: "warning list"

record reconcile_result =
  validTransactions :: "valid_transaction list"
  lastProcessedBlock :: int
  reachedSafeHeight :: bool

section \<open>Helpers of the runtime\<close>

text \<open>\<^verbatim>\<open>String.prototype.toLowerCase\<close> on the ASCII range, where addresses live.\<close>

definition toLowerCaseChar :: "char \<Rightarrow> char" where
  "toLowerCaseChar c =
     (let n = (of_char c :: nat) in if 65 \<le> n \<and> n \<le> 90 then char_of (n + 32) else c)"

definition toLowerCase :: "string \<Rightarrow> string" where
  "toLowerCase s = map toLowerCaseChar s"

section \<open>Watermark store\<close>

definition emptyStats :: provider_stats where
  "emptyStats =
     \<lparr> last_processed_block = 0, total_usdc_received = 0, transaction_count = 0,
       unique_sender_count = 0, first_transaction_at = None, last_transaction_at = None,
       last_transaction_block = 0, processing_checkpoint = 0 \<rparr>"

definition getProviderCurrentStats :: "store \<Rightarrow> provider \<Rightarrow> provider_stats" where
  "getProviderCurrentStats paymentsDb provider =
     (case provider_leaderboard paymentsDb (namehash provider) of
        Some stats \<Rightarrow> stats
      | None \<Rightarrow> emptyStats)"

text \<open>
  \<^verbatim>\<open>validateAndFixBlockNumber\<close>: the corrected block, and the warning printed when the
  stored value is more than 1000 blocks above the height it is checked against.
\<close>

definition validateAndFixBlockNumber :: "int \<Rightarrow> int \<Rightarrow> string \<Rightarrow> int \<times> warning list" where
  "validateAndFixBlockNumber blockNumber' currentHeight providerName =
     (let block = blockNumber' in
      if block > currentHeight + 1000 then
        (if block > 100000000
         then (block div 10, [CorruptionDetected providerName block currentHeight])
         else (currentHeight, [CorruptionDetected providerName block currentHeight]))
      else (block, []))"

text \<open>
  \<^verbatim>\<open>logBlockChange\<close> appends to the audit table; the source swallows any failure of
  this insert, so it never changes the control flow.
\<close>

definition logBlockChange :: "store \<Rightarrow> provider \<Rightarrow> int \<Rightarrow> int \<Rightarrow> change_type \<Rightarrow> store" where
  "logBlockChange paymentsDb provider oldBlock newBlock changeType =
     paymentsDb\<lparr> block_processing_log :=
       block_processing_log paymentsDb
         @ [(namehash provider, full_name provider, oldBlock, newBlock, changeType)] \<rparr>"

text \<open>
  The identifiers bound at the top level of the module, which is an ES module (it starts
  with \<^verbatim>\<open>import\<close> declarations): its imports, constants and functions, and the
  globals of the runtime. The CommonJS function \<^verbatim>\<open>require\<close> is not among them.
\<close>

definition moduleScope :: "string list" where
  "moduleScope =
     [''pg'', ''fetch'', ''config'', ''crypto'', ''Pool'',
      ''INDEXER_DATABASE_URL'', ''PAYMENTS_DATABASE_URL'', ''ETHERSCAN_API_KEY'',
      ''POLL_INTERVAL_MS'', ''USDC_CONTRACT_ADDRESS'', ''ETHERSCAN_API_URL'',
      ''BASE_CHAIN_ID'', ''MAX_RETRIES'', ''RETRY_DELAY_MS'', ''BLOCK_SAFETY_BUFFER'',
      ''CONSERVATIVE_BLOCK_ADVANCE'',
      ''findGridBetaHyprNamehash'', ''fetchProviderEntries'', ''buildTbaLookup'',
      ''getCurrentBlockHeight'', ''fetchUsdcTransactions'', ''getProviderCurrentStats'',
      ''validateAndFixBlockNumber'', ''logBlockChange'', ''processProviderTransactions'',
      ''updatePaymentRecords'', ''updateLastProcessedBlock'',
      ''updateLeaderboardStatsIncremental'', ''runPaymentTracker'',
      ''console'', ''process'', ''Date'', ''Promise'', ''setTimeout'', ''setInterval'',
      ''parseInt'', ''parseFloat'', ''Math'', ''URL'', ''Map'', ''Set'', ''Error'']"

text \<open>Reading an identifier inside a function with the given parameters and locals.\<close>

definition resolveInFunction :: "string list \<Rightarrow> string \<Rightarrow> error + unit" where
  "resolveInFunction locals name =
     (if name \<in> set (locals @ moduleScope) then Inr () else Inl (ReferenceError name))"

text \<open>
  \<^verbatim>\<open>updateLastProcessedBlock\<close>: refuses a block above 100000000; then computes the
  state hash through \<^verbatim>\<open>require('crypto')\<close> (line 368), where reading
  \<^verbatim>\<open>require\<close> throws; the upsert that follows (a new row starts with zero
  statistics, an existing row keeps them) is therefore never reached.
\<close>

definition updateLastProcessedBlock :: "store \<Rightarrow> provider \<Rightarrow> int \<Rightarrow> error + store" where
  "updateLastProcessedBlock paymentsDb provider lastProcessedBlock' =
     (let safeBlockNumber = lastProcessedBlock' in
      if safeBlockNumber > 100000000 then Inl (UnreasonableBlock safeBlockNumber)
      else
        (case resolveInFunction
                [''paymentsDb'', ''provider'', ''lastProcessedBlock'', ''safeBlockNumber'',
                 ''stateHash''] ''require'' of
           Inl e \<Rightarrow> Inl e
         | Inr _ \<Rightarrow>
             Inr (paymentsDb\<lparr> provider_leaderboard :=
               (provider_leaderboard paymentsDb)(namehash provider \<mapsto>
                 (case provider_leaderboard paymentsDb (namehash provider) of
                    None \<Rightarrow> emptyStats\<lparr> last_processed_block := safeBlockNumber,
                                        processing_checkpoint := safeBlockNumber \<rparr>
                  | Some row \<Rightarrow> row\<lparr> last_processed_block := safeBlockNumber,
                                      processing_checkpoint :=
                                        max (processing_checkpoint row)
                                          (safeBlockNumber - 1000) \<rparr>)) \<rparr>)))"

section \<open>Reconciliation engine\<close>

text \<open>
  Lines 228 to 243 of \<^verbatim>\<open>processProviderTransactions\<close>: load the statistics, validate
  the stored block and, when it had to be changed, write the repaired value and an audit
  row. The result is the block to continue from, or the error thrown by the write.
\<close>

definition loadValidatedBlock :: "store \<Rightarrow> provider \<Rightarrow> int \<Rightarrow> (error + int) \<times> store" where
  "loadValidatedBlock paymentsDb provider safeBlockHeight =
     (let currentStats = getProviderCurrentStats paymentsDb provider;
          (validatedLastBlock, warns) =
             validateAndFixBlockNumber (last_processed_block currentStats) safeBlockHeight
               (full_name provider);
          db0 = paymentsDb\<lparr> console_warn := console_warn paymentsDb @ warns \<rparr>
      in if validatedLastBlock \<noteq> last_processed_block currentStats then
           (case updateLastProcessedBlock db0 provider validatedLastBlock of
              Inl e \<Rightarrow> (Inl e, db0)
            | Inr db1 \<Rightarrow>
                (Inr validatedLastBlock,
                 logBlockChange db1 provider (last_processed_block currentStats)
                   validatedLastBlock corruption_fix))
         else (Inr (last_processed_block currentStats), db0))"

text \<open>The object pushed onto \<^verbatim>\<open>validTransactions\<close> (lines 291 to 301).\<close>

definition validTransactionOf :: "provider \<Rightarrow> tba_info \<Rightarrow> raw_transfer \<Rightarrow> valid_transaction" where
  "validTransactionOf provider tbaInfo tx =
     \<lparr> txHash = raw_hash tx, blockNumber = raw_blockNumber tx,
       timestamp = raw_timeStamp tx * 1000, fromAddress = raw_from tx,
       fromHypermapName = fullName tbaInfo, toAddress = raw_to tx,
       toProviderId = provider_id provider,
       valueUsdc = of_int (raw_value tx) / 1000000,
       gasUsed = raw_gasUsed tx \<rparr>"

text \<open>
  The \<^verbatim>\<open>for\<close> loop over the sorted transactions, with its three accumulators: the
  valid transactions, \<^verbatim>\<open>maxBlockSeen\<close> and the warnings printed.
\<close>

fun scanTransactions ::
  "provider \<Rightarrow> tba_lookup \<Rightarrow> int \<Rightarrow> int \<Rightarrow> raw_transfer list \<Rightarrow>
   valid_transaction list \<times> int \<times> warning list \<Rightarrow> valid_transaction list \<times> int \<times> warning list"
where
  "scanTransactions provider tbaLookup fromBlock safeBlockHeight [] acc = acc"
| "scanTransactions provider tbaLookup fromBlock safeBlockHeight (tx # rest)
     (valid, maxBlockSeen, warns) =
     (let blockNumber' = raw_blockNumber tx in
      if blockNumber' > safeBlockHeight then
        scanTransactions provider tbaLookup fromBlock safeBlockHeight rest
          (valid, maxBlockSeen, warns)
      else if blockNumber' < fromBlock then
        scanTransactions provider tbaLookup fromBlock safeBlockHeight rest
          (valid, maxBlockSeen, warns @ [BeforeFromBlock (raw_hash tx) blockNumber' fromBlock])
      else
        (let maxBlockSeen' = max maxBlockSeen blockNumber' in
         case tbaLookup (toLowerCase (raw_from tx)) of
           None \<Rightarrow>
             scanTransactions provider tbaLookup fromBlock safeBlockHeight rest
               (valid, maxBlockSeen', warns)
         | Some tbaInfo \<Rightarrow>
             scanTransactions provider tbaLookup fromBlock safeBlockHeight rest
               (valid @ [validTransactionOf provider tbaInfo tx],
                maxBlockSeen', warns)))"

text \<open>
  \<^verbatim>\<open>processProviderTransactions\<close>. The configured \<^verbatim>\<open>CONSERVATIVE_BLOCK_ADVANCE\<close>
  and the transaction source adapter \<^verbatim>\<open>fetchUsdcTransactions\<close> (an HTTP call with
  retries, which returns the transfers or throws) are parameters. The array is sorted in
  place by block number (a stable sort), so its length is that of the fetched list.
\<close>

definition CONSERVATIVE_BLOCK_ADVANCE_default :: int where
  "CONSERVATIVE_BLOCK_ADVANCE_default = 100"

definition processProviderTransactions ::
  "int \<Rightarrow> (string \<Rightarrow> int \<Rightarrow> int \<Rightarrow> error + raw_transfer list) \<Rightarrow>
   provider \<Rightarrow> tba_lookup \<Rightarrow> store \<Rightarrow> int \<Rightarrow> (error + reconcile_result) \<times> store"
where
  "processProviderTransactions CONSERVATIVE_BLOCK_ADVANCE fetchUsdcTransactions
     provider tbaLookup paymentsDb safeBlockHeight =
     (case loadValidatedBlock paymentsDb provider safeBlockHeight of
        (Inl e, db0) \<Rightarrow> (Inl e, db0)
      | (Inr storedBlock, db0) \<Rightarrow>
          (let fromBlock = storedBlock + 1 in
           if fromBlock > safeBlockHeight then
             (Inr \<lparr> validTransactions = [], lastProcessedBlock = storedBlock,
                    reachedSafeHeight = False \<rparr>, db0)
           else
             (case fetchUsdcTransactions (wallet_address provider) fromBlock safeBlockHeight of
                Inl e \<Rightarrow> (Inl e, db0)
              | Inr transactions \<Rightarrow>
                  (let sortedTransactions = sort_key raw_blockNumber transactions;
                       (valid, maxBlockSeen, warns) =
                          scanTransactions provider tbaLookup fromBlock safeBlockHeight
                            sortedTransactions ([], fromBlock - 1, []);
                       db1 = db0\<lparr> console_warn := console_warn db0 @ warns \<rparr>
                   in if length transactions = 0 then
                        (let conservativeAdvance =
                               min (fromBlock + CONSERVATIVE_BLOCK_ADVANCE) safeBlockHeight
                         in (Inr \<lparr> validTransactions = valid,
                                   lastProcessedBlock = conservativeAdvance,
                                   reachedSafeHeight = (conservativeAdvance \<ge> safeBlockHeight) \<rparr>,
                             logBlockChange db1 provider storedBlock conservativeAdvance
                               conservative_advance))
                      else
                        (let lastProcessedBlock' = min maxBlockSeen safeBlockHeight
                         in (Inr \<lparr> validTransactions = valid,
                                   lastProcessedBlock = lastProcessedBlock',
                                   reachedSafeHeight = (lastProcessedBlock' \<ge> safeBlockHeight) \<rparr>,
                             logBlockChange db1 provider storedBlock lastProcessedBlock'
                               normal_advance))))))"

section \<open>Ledger writer\<close>

text \<open>
  Each \<^verbatim>\<open>client.query\<close> of the two writing functions may be rejected by the
  database (constraint violation, connection loss). What is rejected is a parameter:
  the index of the first rejected insert of \<^verbatim>\<open>updatePaymentRecords\<close>, and
  whether the upsert of \<^verbatim>\<open>updateLeaderboardStatsIncremental\<close> is rejected.
\<close>

record faults =
  rejectInsertAt :: "nat option"
  rejectStatsUpsert :: bool

definition noFaults :: faults where
  "noFaults = \<lparr> rejectInsertAt = None, rejectStatsUpsert = False \<rparr>"

text \<open>\<^verbatim>\<open>INSERT ... ON CONFLICT (tx_hash) DO NOTHING\<close>.\<close>

definition insertOnConflictDoNothing ::
  "valid_transaction \<times> string \<Rightarrow> (valid_transaction \<times> string) list \<Rightarrow>
   (valid_transaction \<times> string) list"
where
  "insertOnConflictDoNothing row table =
     (if txHash (fst row) \<in> set (map (\<lambda>r. txHash (fst r)) table) then table
      else table @ [row])"

text \<open>The loop of inserts inside the transaction; the table is the uncommitted copy.\<close>

fun insertTransactions ::
  "nat option \<Rightarrow> string \<Rightarrow> valid_transaction list \<Rightarrow> (valid_transaction \<times> string) list \<Rightarrow>
   error + (valid_transaction \<times> string) list"
where
  "insertTransactions rejectAt entryName [] table = Inr table"
| "insertTransactions rejectAt entryName (tx # rest) table =
     (if rejectAt = Some 0 then Inl QueryRejected
      else insertTransactions (map_option (\<lambda>k. k - 1) rejectAt) entryName rest
             (insertOnConflictDoNothing (tx, entryName) table))"

text \<open>
  \<^verbatim>\<open>updatePaymentRecords\<close>: BEGIN, the inserts, COMMIT; on a rejected query ROLLBACK
  and rethrow, which leaves the committed table as it was.
\<close>

definition updatePaymentRecords ::
  "nat option \<Rightarrow> store \<Rightarrow> provider \<Rightarrow> valid_transaction list \<Rightarrow> (error + unit) \<times> store"
where
  "updatePaymentRecords rejectAt paymentsDb provider valid =
     (case insertTransactions rejectAt (full_name provider) valid
             (hypermap_transactions paymentsDb) of
        Inl e \<Rightarrow> (Inl e, paymentsDb)
      | Inr table \<Rightarrow> (Inr (), paymentsDb\<lparr> hypermap_transactions := table \<rparr>))"

text \<open>SQL \<^verbatim>\<open>GREATEST\<close>, which ignores \<^verbatim>\<open>NULL\<close> arguments.\<close>

fun greatest :: "int option \<Rightarrow> int option \<Rightarrow> int option" where
  "greatest None b = b"
| "greatest (Some a) None = Some a"
| "greatest (Some a) (Some b) = Some (max a b)"

text \<open>
  \<^verbatim>\<open>updateLeaderboardStatsIncremental\<close>. The statistics and the watermark are written
  by one upsert statement. A new row takes the column default 0 for
  \<^verbatim>\<open>processing_checkpoint\<close>. The branch on an empty \<^verbatim>\<open>newTransactions\<close> under
  a non-empty sender set cannot be taken; it stands for \<^verbatim>\<open>newTransactions[0]\<close>.
\<close>

definition updateLeaderboardStatsIncremental ::
  "bool \<Rightarrow> store \<Rightarrow> provider \<Rightarrow> valid_transaction list \<Rightarrow> int \<Rightarrow> (error + unit) \<times> store"
where
  "updateLeaderboardStatsIncremental rejected paymentsDb provider newTransactions
     lastProcessedBlock' =
     (let currentStats = getProviderCurrentStats paymentsDb provider;
          newTotalUsdc = foldl (\<lambda>sum tx. sum + valueUsdc tx) 0 newTransactions;
          newTxCount = int (length newTransactions);
          uniqueNewSenders = remdups (map (\<lambda>tx. toLowerCase (fromAddress tx)) newTransactions);
          newUniqueSenderCount =
            (if length uniqueNewSenders > 0 then
               (case newTransactions of
                  [] \<Rightarrow> unique_sender_count currentStats
                | first # _ \<Rightarrow>
                    (let existingCount = int (length (remdups (map (\<lambda>r. fromAddress (fst r))
                           (filter (\<lambda>r. toAddress (fst r) = wallet_address provider
                                       \<and> fromAddress (fst r) \<in> set uniqueNewSenders
                                       \<and> blockNumber (fst r) < blockNumber first)
                              (hypermap_transactions paymentsDb)))));
                         actuallyNewSenders = int (length uniqueNewSenders) - existingCount
                     in unique_sender_count currentStats + actuallyNewSenders))
             else unique_sender_count currentStats);
          firstTx =
            (case first_transaction_at currentStats of
               Some t \<Rightarrow> Some t
             | None \<Rightarrow> (case newTransactions of [] \<Rightarrow> None | tx # _ \<Rightarrow> Some (timestamp tx)));
          lastTx =
            (case newTransactions of
               [] \<Rightarrow> last_transaction_at currentStats
             | _ # _ \<Rightarrow> Some (timestamp (last newTransactions)))
      in if rejected then (Inl QueryRejected, paymentsDb)
         else (Inr (), paymentsDb\<lparr> provider_leaderboard :=
           (provider_leaderboard paymentsDb)(namehash provider \<mapsto>
             (case provider_leaderboard paymentsDb (namehash provider) of
                None \<Rightarrow>
                  \<lparr> last_processed_block = lastProcessedBlock',
                    total_usdc_received = newTotalUsdc,
                    transaction_count = newTxCount,
                    unique_sender_count = newUniqueSenderCount,
                    first_transaction_at = firstTx,
                    last_transaction_at = lastTx,
                    last_transaction_block = lastProcessedBlock',
                    processing_checkpoint = 0 \<rparr>
              | Some row \<Rightarrow>
                  row\<lparr> total_usdc_received := total_usdc_received row + newTotalUsdc,
                       transaction_count := transaction_count row + newTxCount,
                       unique_sender_count := newUniqueSenderCount,
                       first_transaction_at :=
                         (case first_transaction_at row of Some t \<Rightarrow> Some t | None \<Rightarrow> firstTx),
                       last_transaction_at := greatest (last_transaction_at row) lastTx,
                       last_processed_block := lastProcessedBlock',
                       last_transaction_block := lastProcessedBlock',
                       processing_checkpoint :=
                         max (processing_checkpoint row) (lastProcessedBlock' - 1000) \<rparr>)) \<rparr>))"

section \<open>The provider loop of \<^verbatim>\<open>runPaymentTracker\<close>\<close>

text \<open>
  The identifiers bound where the loop body runs: the module's imports, constants and
  functions, the locals of \<^verbatim>\<open>runPaymentTracker\<close> declared before or in the loop,
  and the globals of the runtime that the body uses. Reading any other identifier throws
  a \<^verbatim>\<open>ReferenceError\<close>.
\<close>

definition runPaymentTracker_scope :: "string list" where
  "runPaymentTracker_scope =
     [''pg'', ''fetch'', ''config'', ''crypto'', ''Pool'',
      ''INDEXER_DATABASE_URL'', ''PAYMENTS_DATABASE_URL'', ''ETHERSCAN_API_KEY'',
      ''POLL_INTERVAL_MS'', ''USDC_CONTRACT_ADDRESS'', ''ETHERSCAN_API_URL'',
      ''BASE_CHAIN_ID'', ''MAX_RETRIES'', ''RETRY_DELAY_MS'', ''BLOCK_SAFETY_BUFFER'',
      ''CONSERVATIVE_BLOCK_ADVANCE'',
      ''findGridBetaHyprNamehash'', ''fetchProviderEntries'', ''buildTbaLookup'',
      ''getCurrentBlockHeight'', ''fetchUsdcTransactions'', ''getProviderCurrentStats'',
      ''validateAndFixBlockNumber'', ''logBlockChange'', ''processProviderTransactions'',
      ''updatePaymentRecords'', ''updateLastProcessedBlock'',
      ''updateLeaderboardStatsIncremental'', ''runPaymentTracker'',
      ''indexerDb'', ''paymentsDb'', ''gridBetaHyprHash'', ''providers'', ''tbaLookup'',
      ''currentBlockHeight'', ''safeBlockHeight'', ''provider'',
      ''validTransactions'', ''lastProcessedBlock'', ''reachedSafeHeight'',
      ''console'', ''Date'', ''Promise'', ''setTimeout'', ''process'']"

definition resolveIdentifier :: "string \<Rightarrow> error + unit" where
  "resolveIdentifier name =
     (if name \<in> set runPaymentTracker_scope then Inr () else Inl (ReferenceError name))"

text \<open>
  Lines 506 to 518: what the loop body does with the result of
  \<^verbatim>\<open>processProviderTransactions\<close>. The first two branches end with a log line that
  reads \<^verbatim>\<open>currentStats.last_processed_block\<close>.
\<close>

definition applyProviderResult ::
  "faults \<Rightarrow> store \<Rightarrow> provider \<Rightarrow> reconcile_result \<Rightarrow> (error + unit) \<times> store"
where
  "applyProviderResult flt paymentsDb provider result =
     (if length (validTransactions result) > 0 then
        (case updatePaymentRecords (rejectInsertAt flt) paymentsDb provider
                (validTransactions result) of
           (Inl e, db1) \<Rightarrow> (Inl e, db1)
         | (Inr _, db1) \<Rightarrow>
             (case updateLeaderboardStatsIncremental (rejectStatsUpsert flt) db1 provider
                     (validTransactions result) (lastProcessedBlock result) of
                (Inl e, db2) \<Rightarrow> (Inl e, db2)
              | (Inr _, db2) \<Rightarrow> (resolveIdentifier ''currentStats'', db2)))
      else if reachedSafeHeight result then
        (case updateLastProcessedBlock paymentsDb provider (lastProcessedBlock result) of
           Inl e \<Rightarrow> (Inl e, paymentsDb)
         | Inr db1 \<Rightarrow> (resolveIdentifier ''currentStats'', db1))
      else (Inr (), paymentsDb))"

text \<open>Lines 499 to 518: reconcile, then apply.\<close>

definition reconcileAndApply ::
  "int \<Rightarrow> (string \<Rightarrow> int \<Rightarrow> int \<Rightarrow> error + raw_transfer list) \<Rightarrow> faults \<Rightarrow>
   provider \<Rightarrow> tba_lookup \<Rightarrow> store \<Rightarrow> int \<Rightarrow> (error + unit) \<times> store"
where
  "reconcileAndApply CONSERVATIVE_BLOCK_ADVANCE fetchUsdcTransactions flt
     provider tbaLookup paymentsDb safeBlockHeight =
     (case processProviderTransactions CONSERVATIVE_BLOCK_ADVANCE fetchUsdcTransactions
             provider tbaLookup paymentsDb safeBlockHeight of
        (Inl e, db0) \<Rightarrow> (Inl e, db0)
      | (Inr result, db0) \<Rightarrow> applyProviderResult flt db0 provider result)"

text \<open>
  Lines 494 to 530, one iteration of the loop: the log line of line 497 reads
  \<^verbatim>\<open>currentStats.last_processed_block\<close> before anything else; the \<^verbatim>\<open>catch\<close>
  stores the error in \<^verbatim>\<open>tracker_state.last_error\<close> and the loop goes on.
\<close>

definition providerIteration ::
  "int \<Rightarrow> (string \<Rightarrow> int \<Rightarrow> int \<Rightarrow> error + raw_transfer list) \<Rightarrow> faults \<Rightarrow>
   tba_lookup \<Rightarrow> int \<Rightarrow> provider \<Rightarrow> store \<Rightarrow> store"
where
  "providerIteration CONSERVATIVE_BLOCK_ADVANCE fetchUsdcTransactions flt
     tbaLookup safeBlockHeight provider paymentsDb =
     (case (case resolveIdentifier ''currentStats'' of
              Inl e \<Rightarrow> (Inl e, paymentsDb)
            | Inr _ \<Rightarrow>
                reconcileAndApply CONSERVATIVE_BLOCK_ADVANCE fetchUsdcTransactions flt
                  provider tbaLookup paymentsDb safeBlockHeight) of
        (Inl e, db') \<Rightarrow> db'\<lparr> last_error := Some (full_name provider, e) \<rparr>
      | (Inr _, db') \<Rightarrow> db')"

fun forEachProvider ::
  "int \<Rightarrow> (string \<Rightarrow> int \<Rightarrow> int \<Rightarrow> error + raw_transfer list) \<Rightarrow> faults \<Rightarrow>
   tba_lookup \<Rightarrow> int \<Rightarrow> provider list \<Rightarrow> store \<Rightarrow> store"
where
  "forEachProvider step fetchUsdcTransactions flt tbaLookup safeBlockHeight [] paymentsDb =
     paymentsDb"
| "forEachProvider step fetchUsdcTransactions flt tbaLookup safeBlockHeight (provider # rest)
     paymentsDb =
     forEachProvider step fetchUsdcTransactions flt tbaLookup safeBlockHeight rest
       (providerIteration step fetchUsdcTransactions flt tbaLookup safeBlockHeight provider
          paymentsDb)"

section \<open>The repair procedure as the specification words it\<close>

text \<open>
  The highest block of a recorded transaction to the provider's wallet, if there is one
  (the \<^verbatim>\<open>MAX(block_number)\<close> of the recovery scripts).
\<close>

definition maxTransactionBlock :: "store \<Rightarrow> provider \<Rightarrow> int option" where
  "maxTransactionBlock paymentsDb provider =
     (case filter (\<lambda>r. toAddress (fst r) = wallet_address provider)
             (hypermap_transactions paymentsDb) of
        [] \<Rightarrow> None
      | r # rs \<Rightarrow> Some (fold max (map (\<lambda>r. blockNumber (fst r)) rs) (blockNumber (fst r))))"

text \<open>
  \<^verbatim>\<open>validateAndRepair\<close> written from the specification's sentence, for comparison
  with \<^const>\<open>validateAndFixBlockNumber\<close>: above the tolerance, divide by ten when the
  magnitude check fires, else fall back to the last block bearing a transaction, else 0.
  The tolerance margin and the magnitude bound are the source's constants.
\<close>

definition validateAndRepair_spec :: "store \<Rightarrow> provider \<Rightarrow> int \<Rightarrow> int \<Rightarrow> int" where
  "validateAndRepair_spec paymentsDb provider stored observedChainHeight =
     (if stored > observedChainHeight + 1000 then
        (if stored > 100000000 then stored div 10
         else (case maxTransactionBlock paymentsDb provider of
                 Some b \<Rightarrow> b
               | None \<Rightarrow> 0))
      else stored)"

section \<open>Example data\<close>

definition exampleProvider :: provider where
  "exampleProvider =
     \<lparr> namehash = ''0xnamehash'', full_name = ''weather.grid-beta.hypr'',
       provider_id = ''weather'', wallet_address = ''0xabc'' \<rparr>"

definition emptyStore :: store where
  "emptyStore =
     \<lparr> provider_leaderboard = Map.empty, hypermap_transactions = [],
       block_processing_log = [], last_error = None, console_warn = [] \<rparr>"

text \<open>A store whose only row is the example provider's, at the given watermark.\<close>

definition storeAt :: "int \<Rightarrow> store" where
  "storeAt n =
     emptyStore\<lparr> provider_leaderboard :=
       [namehash exampleProvider \<mapsto> emptyStats\<lparr> last_processed_block := n \<rparr>] \<rparr>"

section \<open>The engine's outputs as the specification words them\<close>

text \<open>A fetched transfer lies in the range that is being reconciled.\<close>

definition inRange :: "int \<Rightarrow> int \<Rightarrow> raw_transfer \<Rightarrow> bool" where
  "inRange fromBlock safeBlockHeight tx \<longleftrightarrow>
     fromBlock \<le> raw_blockNumber tx \<and> raw_blockNumber tx \<le> safeBlockHeight"

text \<open>The transfers whose sender resolves in the allow-list, as transaction records.\<close>

definition matchedTransactions ::
  "provider \<Rightarrow> tba_lookup \<Rightarrow> raw_transfer list \<Rightarrow> valid_transaction list"
where
  "matchedTransactions provider tbaLookup txs =
     List.map_filter
       (\<lambda>tx. map_option (\<lambda>info. validTransactionOf provider info tx)
          (tbaLookup (toLowerCase (raw_from tx)))) txs"

text \<open>One warning for each transfer below \<open>fromBlock\<close> (and not above the safe height).\<close>

definition staleWarnings :: "int \<Rightarrow> int \<Rightarrow> raw_transfer list \<Rightarrow> warning list" where
  "staleWarnings fromBlock safeBlockHeight txs =
     map (\<lambda>tx. BeforeFromBlock (raw_hash tx) (raw_blockNumber tx) fromBlock)
       (filter (\<lambda>tx. raw_blockNumber tx \<le> safeBlockHeight \<and> raw_blockNumber tx < fromBlock)
          txs)"

text \<open>
  \<open>maxBlockSeen\<close> as the specification describes it: the highest block among all
  fetched transfers in range, whoever sent them, starting from the block before
  \<open>fromBlock\<close>.
\<close>

definition maxBlockSeenOf :: "int \<Rightarrow> int \<Rightarrow> raw_transfer list \<Rightarrow> int" where
  "maxBlockSeenOf fromBlock safeBlockHeight txs =
     Max (insert (fromBlock - 1)
            (raw_blockNumber ` set (filter (inRange fromBlock safeBlockHeight) txs)))"

section \<open>More example data\<close>

definition exampleTransfer :: "string \<Rightarrow> int \<Rightarrow> string \<Rightarrow> raw_transfer" where
  "exampleTransfer h b sender =
     \<lparr> raw_hash = h, raw_blockNumber = b, raw_timeStamp = 1700000000 + b,
       raw_from = sender, raw_to = ''0xabc'', raw_value = 2500000, raw_gasUsed = 21000 \<rparr>"

definition exampleAllowList :: tba_lookup where
  "exampleAllowList =
     [''0xa11ce'' \<mapsto> \<lparr> fullName = ''alice.grid-wallet.hypr'', tba_namehash = ''0xn1'' \<rparr>,
      ''0xb0b'' \<mapsto> \<lparr> fullName = ''bob.grid-wallet.hypr'', tba_namehash = ''0xn2'' \<rparr>]"

text \<open>
  Transfers at blocks 10, 50 and 90; the first and the last sender are in the allow-list,
  the first one written in upper case as the explorer may return it.
\<close>

definition scenarioTransfers :: "raw_transfer list" where
  "scenarioTransfers =
     [exampleTransfer ''0xh10'' 10 ''0xA11CE'', exampleTransfer ''0xh50'' 50 ''0xdead'',
      exampleTransfer ''0xh90'' 90 ''0xb0b'']"

section \<open>Repeated runs\<close>

text \<open>
  The reconcile-and-apply pair run \<open>n\<close> times in a row for one provider against
  the same safe height, whatever each run's outcome.
\<close>

fun repeatedRuns ::
  "nat \<Rightarrow> int \<Rightarrow> (string \<Rightarrow> int \<Rightarrow> int \<Rightarrow> error + raw_transfer list) \<Rightarrow> faults \<Rightarrow>
   provider \<Rightarrow> tba_lookup \<Rightarrow> int \<Rightarrow> store \<Rightarrow> store"
where
  "repeatedRuns 0 step fetch flt p tba safe db = db"
| "repeatedRuns (Suc n) step fetch flt p tba safe db =
     repeatedRuns n step fetch flt p tba safe (snd (reconcileAndApply step fetch flt p tba db safe))"

section \<open>Faults and further example data\<close>

text \<open>The fault parameter makes one of the inserts of this batch fail.\<close>

definition insertRejected :: "faults \<Rightarrow> valid_transaction list \<Rightarrow> bool" where
  "insertRejected flt valid \<longleftrightarrow>
     (case rejectInsertAt flt of Some k \<Rightarrow> k < length valid | None \<Rightarrow> False)"

text \<open>A fetch answer with a transfer beyond the safe height 1000, one in range and a stale one.\<close>

definition mixedTransfers :: "raw_transfer list" where
  "mixedTransfers =
     [exampleTransfer ''0xh2000'' 2000 ''0xb0b'', exampleTransfer ''0xh20'' 20 ''0xb0b'',
      exampleTransfer ''0xh5'' 5 ''0xb0b'']"

text \<open>Every insert succeeds and the statistics upsert is rejected.\<close>

definition statsRejected :: faults where
  "statsRejected = \<lparr> rejectInsertAt = None, rejectStatsUpsert = True \<rparr>"

section \<open>The scenario as a reconciliation result\<close>

text \<open>What the engine returns in the scenario: the records of blocks 10 and 90, watermark 90.\<close>

definition scenarioResult :: reconcile_result where
  "scenarioResult =
     \<lparr> validTransactions =
         [validTransactionOf exampleProvider
            \<lparr> fullName = ''alice.grid-wallet.hypr'', tba_namehash = ''0xn1'' \<rparr>
            (exampleTransfer ''0xh10'' 10 ''0xA11CE''),
          validTransactionOf exampleProvider
            \<lparr> fullName = ''bob.grid-wallet.hypr'', tba_namehash = ''0xn2'' \<rparr>
            (exampleTransfer ''0xh90'' 90 ''0xb0b'')],
       lastProcessedBlock = 90, reachedSafeHeight = False \<rparr>"

text \<open>The ledger rows of these two records.\<close>

definition scenarioRows :: "(valid_transaction \<times> string) list" where
  "scenarioRows = map (\<lambda>v. (v, full_name exampleProvider)) (validTransactions scenarioResult)"

text \<open>The second insert of the batch is rejected.\<close>

definition secondInsertRejected :: faults where
  "secondInsertRejected = \<lparr> rejectInsertAt = Some 1, rejectStatsUpsert = False \<rparr>"

section \<open>Runs against a fixed upstream data set\<close>

text \<open>
  The transaction source over a fixed data set: the explorer returns the transfers of the
  set between \<^verbatim>\<open>startblock\<close> and \<^verbatim>\<open>endblock\<close>, and
  \<^verbatim>\<open>fetchUsdcTransactions\<close> keeps those sent to the wallet, compared in lower case.
\<close>

definition fixedUpstream ::
  "raw_transfer list \<Rightarrow> string \<Rightarrow> int \<Rightarrow> int \<Rightarrow> error + raw_transfer list"
where
  "fixedUpstream dataSet walletAddress fromBlock endBlock =
     Inr (filter (\<lambda>tx. fromBlock \<le> raw_blockNumber tx \<and> raw_blockNumber tx \<le> endBlock
                       \<and> toLowerCase (raw_to tx) = toLowerCase walletAddress) dataSet)"

text \<open>The leaderboard aggregate of a provider: total, count, unique senders, first and last time.\<close>

definition aggregateStats ::
  "store \<Rightarrow> provider \<Rightarrow> rat \<times> int \<times> int \<times> int option \<times> int option"
where
  "aggregateStats paymentsDb provider =
     (let stats = getProviderCurrentStats paymentsDb provider
      in (total_usdc_received stats, transaction_count stats, unique_sender_count stats,
          first_transaction_at stats, last_transaction_at stats))"

text \<open>The stored watermark of a provider (0 when there is no row).\<close>

definition watermark :: "store \<Rightarrow> provider \<Rightarrow> int" where
  "watermark paymentsDb provider =
     last_processed_block (getProviderCurrentStats paymentsDb provider)"

text \<open>One reconcile-and-apply over the fixed data set with no database fault; the store afterwards.\<close>

definition runOnce ::
  "int \<Rightarrow> raw_transfer list \<Rightarrow> provider \<Rightarrow> tba_lookup \<Rightarrow> int \<Rightarrow> store \<Rightarrow> store"
where
  "runOnce step dataSet provider tbaLookup safeBlockHeight paymentsDb =
     snd (reconcileAndApply step (fixedUpstream dataSet) noFaults provider tbaLookup
            paymentsDb safeBlockHeight)"

text \<open>No transfer of the data set to this wallet, above block \<open>w\<close> and up to the safe height, has an allow-listed sender.\<close>

definition nothingNewAbove ::
  "raw_transfer list \<Rightarrow> provider \<Rightarrow> tba_lookup \<Rightarrow> int \<Rightarrow> int \<Rightarrow> bool"
where
  "nothingNewAbove dataSet provider tbaLookup safeBlockHeight w \<longleftrightarrow>
     (\<forall>tx \<in> set dataSet.
        w < raw_blockNumber tx \<and> raw_blockNumber tx \<le> safeBlockHeight
        \<and> toLowerCase (raw_to tx) = toLowerCase (wallet_address provider)
        \<longrightarrow> tbaLookup (toLowerCase (raw_from tx)) = None)"

text \<open>The next run, if its validation step succeeds, is already caught up or has nothing new to find.\<close>

definition settled ::
  "raw_transfer list \<Rightarrow> provider \<Rightarrow> tba_lookup \<Rightarrow> int \<Rightarrow> store \<Rightarrow> bool"
where
  "settled dataSet provider tbaLookup safeBlockHeight paymentsDb \<longleftrightarrow>
     (case fst (loadValidatedBlock paymentsDb provider safeBlockHeight) of
        Inl e \<Rightarrow> True
      | Inr v \<Rightarrow> safeBlockHeight < v + 1
                 \<or> nothingNewAbove dataSet provider tbaLookup safeBlockHeight v)"

section \<open>Properties of the watermark store\<close>

text \<open>
  \<^const>\<open>updateLastProcessedBlock\<close> never writes: it refuses the block or fails on
  \<^verbatim>\<open>require\<close>.
\<close>

lemma updateLastProcessedBlock_throws:
  "updateLastProcessedBlock db p b =
     Inl (if b > 100000000 then UnreasonableBlock b else ReferenceError ''require'')"
  by (simp add: updateLastProcessedBlock_def resolveInFunction_def moduleScope_def)


lemma validateAndFixBlockNumber_value:
  "fst (validateAndFixBlockNumber stored h n) =
     (if stored > h + 1000 then (if stored > 100000000 then stored div 10 else h) else stored)"
  by (simp add: validateAndFixBlockNumber_def)

lemma validateAndFixBlockNumber_warns:
  "snd (validateAndFixBlockNumber stored h n) = [] \<longleftrightarrow> \<not> stored > h + 1000"
  by (simp add: validateAndFixBlockNumber_def)

text \<open>
  C5, counterexample. A stored watermark of 50000000 checked against height 31522845 is
  above the tolerance and below the magnitude bound. The specification's procedure falls
  back to the ledger, here empty, and yields 0; the code returns the height.
\<close>

theorem C5_repair_fallback_counterexample:
  "fst (validateAndFixBlockNumber 50000000 31522845 (full_name exampleProvider)) = 31522845
   \<and> validateAndRepair_spec emptyStore exampleProvider 50000000 31522845 = 0"
  by (simp add: validateAndFixBlockNumber_def validateAndRepair_spec_def
      maxTransactionBlock_def emptyStore_def)

text \<open>
  C5, as amended. A stored watermark more than 1000 blocks above the height it is checked
  against is divided by ten (rounding down) when it exceeds 100000000, and is otherwise
  replaced by that height; the ledger is not consulted. The stored value 315228551 checked
  against 31522845 becomes 31522855.
\<close>

theorem C5_repair_divides_or_caps:
  "(stored > h + 1000 \<longrightarrow>
      fst (validateAndFixBlockNumber stored h n) =
        (if stored > 100000000 then stored div 10 else h))
   \<and> fst (validateAndFixBlockNumber 315228551 31522845 n) = 31522855"
  by (simp add: validateAndFixBlockNumber_def)

theorem C5_repair_divides_or_caps_witness:
  "(50000000::int) > 31522845 + 1000
   \<and> fst (validateAndFixBlockNumber 50000000 31522845 ''weather.grid-beta.hypr'') = 31522845"
proof -
  have h: "(50000000::int) > 31522845 + 1000" by simp
  have "fst (validateAndFixBlockNumber 50000000 31522845 ''weather.grid-beta.hypr'') =
          (if (50000000::int) > 100000000 then 50000000 div 10 else 31522845)"
    using C5_repair_divides_or_caps
        [where stored = 50000000 and h = 31522845 and n = "''weather.grid-beta.hypr''"] h
    by blast
  then show ?thesis using h by simp
qed

section \<open>Properties of the reconciliation engine\<close>

lemma loadValidatedBlock_stored:
  assumes "loadValidatedBlock db p safe = (Inr wm, db0)"
  shows "last_processed_block (getProviderCurrentStats db0 p) = wm"
  using assms
  by (auto simp: loadValidatedBlock_def Let_def getProviderCurrentStats_def
      updateLastProcessedBlock_throws logBlockChange_def validateAndFixBlockNumber_def
      split: if_splits option.splits sum.splits prod.splits)

lemma loadValidatedBlock_unchanged:
  assumes "loadValidatedBlock db p safe = (Inr wm, db0)"
    and "wm = last_processed_block (getProviderCurrentStats db p)"
  shows "db0 = db"
  using assms
  by (auto simp: loadValidatedBlock_def Let_def updateLastProcessedBlock_throws
      logBlockChange_def validateAndFixBlockNumber_def
      split: if_splits option.splits sum.splits prod.splits)

text \<open>
  When the validation step has returned the block \<open>wm\<close> to continue from and
  \<open>wm + 1\<close> exceeds the safe height, \<^const>\<open>processProviderTransactions\<close> returns at
  once, whatever the transaction source would answer: no error, an empty transaction set,
  \<open>reachedSafeHeight = False\<close> and the watermark \<open>wm\<close>, which is the stored one;
  nothing is written.
\<close>

lemma caught_up_is_noop:
  assumes "loadValidatedBlock db p safe = (Inr wm, db0)"
    and "wm + 1 > safe"
  shows "processProviderTransactions step fetch p tba db safe =
           (Inr \<lparr> validTransactions = [], lastProcessedBlock = wm,
                  reachedSafeHeight = False \<rparr>, db0)
         \<and> last_processed_block (getProviderCurrentStats db0 p) = wm
         \<and> (wm = last_processed_block (getProviderCurrentStats db p) \<longrightarrow> db0 = db)"
  using assms loadValidatedBlock_stored [OF assms(1)] loadValidatedBlock_unchanged [OF assms(1)]
  by (simp add: processProviderTransactions_def)

lemma loadValidatedBlock_storeAt_600:
  "loadValidatedBlock (storeAt 600) exampleProvider 600 = (Inr 600, storeAt 600)"
  by (simp add: loadValidatedBlock_def validateAndFixBlockNumber_def
      getProviderCurrentStats_def storeAt_def emptyStore_def exampleProvider_def)

text \<open>
  C7, the code at the failing input. A stored watermark of 1500 with safe height 100 is
  validated to 100, so \<open>fromBlock\<close> is 101 and exceeds the safe height. The engine does
  not return the no-op: the write of the repaired watermark fails on \<^verbatim>\<open>require\<close>
  and the run ends in that error, the stored watermark still 1500.
\<close>

theorem C7_repaired_watermark_throws:
  "fst (validateAndFixBlockNumber 1500 100 (full_name exampleProvider)) = 100
   \<and> (100::int) + 1 > 100
   \<and> fst (processProviderTransactions 100 (\<lambda>w a b. Inr []) exampleProvider exampleAllowList
          (storeAt 1500) 100) = Inl (ReferenceError ''require'')
   \<and> last_processed_block (getProviderCurrentStats
        (snd (processProviderTransactions 100 (\<lambda>w a b. Inr []) exampleProvider exampleAllowList
           (storeAt 1500) 100)) exampleProvider) = 1500"
  by (simp add: processProviderTransactions_def loadValidatedBlock_def
      validateAndFixBlockNumber_def getProviderCurrentStats_def storeAt_def emptyStore_def
      exampleProvider_def updateLastProcessedBlock_throws)

subsection \<open>The scan loop and the advance decision\<close>

lemma scanTransactions_eq:
  "scanTransactions p tba fromBlock safe txs (v, m, w) =
     (v @ matchedTransactions p tba (filter (inRange fromBlock safe) txs),
      fold max (map raw_blockNumber (filter (inRange fromBlock safe) txs)) m,
      w @ staleWarnings fromBlock safe txs)"
proof (induction txs arbitrary: v m w)
  case Nil
  then show ?case by (simp add: matchedTransactions_def staleWarnings_def map_filter_simps)
next
  case (Cons tx txs)
  then show ?case
    by (auto simp: Let_def inRange_def matchedTransactions_def staleWarnings_def
        map_filter_simps max.commute split: option.splits)
qed

lemma fold_max_Max:
  "fold max xs (m::int) = Max (insert m (set xs))"
  using Max.set_eq_fold [of m xs] by simp

lemma sorted_scan:
  "scanTransactions p tba fromBlock safe (sort_key raw_blockNumber txs) ([], fromBlock - 1, []) =
     (matchedTransactions p tba (filter (inRange fromBlock safe) (sort_key raw_blockNumber txs)),
      maxBlockSeenOf fromBlock safe txs,
      staleWarnings fromBlock safe (sort_key raw_blockNumber txs))"
  by (simp add: scanTransactions_eq fold_max_Max maxBlockSeenOf_def)

lemma maxBlockSeenOf_bounds:
  assumes "fromBlock - 1 \<le> safe"
  shows "fromBlock - 1 \<le> maxBlockSeenOf fromBlock safe txs
         \<and> maxBlockSeenOf fromBlock safe txs \<le> safe"
  using assms by (auto simp: maxBlockSeenOf_def inRange_def)

lemma loadValidatedBlock_sane:
  assumes "last_processed_block (getProviderCurrentStats db p) \<le> safe + 1000"
  shows "loadValidatedBlock db p safe =
           (Inr (last_processed_block (getProviderCurrentStats db p)), db)"
  using assms by (simp add: loadValidatedBlock_def validateAndFixBlockNumber_def)

text \<open>
  What \<^const>\<open>processProviderTransactions\<close> returns and writes once the validation step
  has returned \<open>wm\<close>, the range is not empty and the source has answered.
\<close>

lemma process_fetched:
  assumes "loadValidatedBlock db p safe = (Inr wm, db0)" and "wm + 1 \<le> safe"
    and "fetch (wallet_address p) (wm + 1) safe = Inr txs"
  shows "processProviderTransactions step fetch p tba db safe =
     (let lpb = (if txs = [] then min (wm + 1 + step) safe
                 else min (maxBlockSeenOf (wm + 1) safe txs) safe)
      in (Inr \<lparr> validTransactions =
                  matchedTransactions p tba
                    (filter (inRange (wm + 1) safe) (sort_key raw_blockNumber txs)),
                lastProcessedBlock = lpb,
                reachedSafeHeight = (lpb \<ge> safe) \<rparr>,
          logBlockChange
            (db0\<lparr> console_warn := console_warn db0
                     @ staleWarnings (wm + 1) safe (sort_key raw_blockNumber txs) \<rparr>)
            p wm lpb (if txs = [] then conservative_advance else normal_advance)))"
proof (cases "txs = []")
  case True
  with assms show ?thesis
    by (simp add: processProviderTransactions_def Let_def matchedTransactions_def
        staleWarnings_def map_filter_simps)
next
  case False
  have scan: "scanTransactions p tba (wm + 1) safe (sort_key raw_blockNumber txs) ([], wm, []) =
     (matchedTransactions p tba (filter (inRange (wm + 1) safe) (sort_key raw_blockNumber txs)),
      maxBlockSeenOf (wm + 1) safe txs,
      staleWarnings (wm + 1) safe (sort_key raw_blockNumber txs))"
    using sorted_scan [where fromBlock = "wm + 1"] by simp
  from False assms show ?thesis
    by (simp add: processProviderTransactions_def Let_def scan)
qed

lemma lower_examples:
  "toLowerCase ''0xA11CE'' = ''0xa11ce''" "toLowerCase ''0xdead'' = ''0xdead''"
  "toLowerCase ''0xb0b'' = ''0xb0b''"
  by code_simp+

lemma load_storeAt:
  "n \<le> safe + 1000 \<Longrightarrow> loadValidatedBlock (storeAt n) exampleProvider safe = (Inr n, storeAt n)"
  by (simp add: loadValidatedBlock_def validateAndFixBlockNumber_def
      getProviderCurrentStats_def storeAt_def emptyStore_def exampleProvider_def)

text \<open>
  C2, the code at the failing input. Watermark 0, safe height 1000, an empty fetch and
  the default step of 100: the range holds 1000 blocks, more than the step, and the
  returned watermark is 101, an advance of 101 blocks where the claim allows at most 100.
  The advance is computed from \<open>fromBlock\<close>, which is already one past the watermark.
\<close>
theorem C2_conservative_advance_off_by_one:
  "fst (processProviderTransactions 100 (\<lambda>w a b. Inr []) exampleProvider exampleAllowList
          (storeAt 0) 1000) =
     Inr \<lparr> validTransactions = [], lastProcessedBlock = 101, reachedSafeHeight = False \<rparr>"
  by (simp add: process_fetched [OF load_storeAt] matchedTransactions_def map_filter_simps)

lemma resolve_currentStats: "resolveIdentifier ''currentStats'' = Inl (ReferenceError ''currentStats'')"
  by (simp add: resolveIdentifier_def runPaymentTracker_scope_def)

lemma providerIteration_eq:
  "providerIteration step fetch flt tba safe p db =
     db\<lparr> last_error := Some (full_name p, ReferenceError ''currentStats'') \<rparr>"
  by (simp add: providerIteration_def resolve_currentStats)

lemma forEachProvider_tables:
  "provider_leaderboard (forEachProvider step fetch flt tba safe ps db) = provider_leaderboard db
   \<and> hypermap_transactions (forEachProvider step fetch flt tba safe ps db) = hypermap_transactions db"
  by (induction ps arbitrary: db) (simp_all add: providerIteration_eq)

text \<open>
  C10, the code at every input. One iteration of the provider loop never reaches
  \<^const>\<open>processProviderTransactions\<close>: reading \<^verbatim>\<open>currentStats\<close> on line 497
  throws, the handler records the error, and the whole loop leaves the leaderboard and
  the ledger as they were, for any providers, transaction source and store.
\<close>
theorem C10_loop_body_reference_error:
  "providerIteration step fetch flt tba safe p db =
     db\<lparr> last_error := Some (full_name p, ReferenceError ''currentStats'') \<rparr>
   \<and> provider_leaderboard (forEachProvider step fetch flt tba safe ps db) = provider_leaderboard db
   \<and> hypermap_transactions (forEachProvider step fetch flt tba safe ps db) = hypermap_transactions db"
  using providerIteration_eq forEachProvider_tables by simp

lemma scenario_sorted: "sort_key raw_blockNumber scenarioTransfers = scenarioTransfers"
  by (simp add: scenarioTransfers_def exampleTransfer_def)

lemma scenario_process:
  "processProviderTransactions 100 (\<lambda>w a b. Inr scenarioTransfers) exampleProvider
     exampleAllowList (storeAt 0) 100 =
   (Inr \<lparr> validTransactions =
            [validTransactionOf exampleProvider
               \<lparr> fullName = ''alice.grid-wallet.hypr'', tba_namehash = ''0xn1'' \<rparr>
               (exampleTransfer ''0xh10'' 10 ''0xA11CE''),
             validTransactionOf exampleProvider
               \<lparr> fullName = ''bob.grid-wallet.hypr'', tba_namehash = ''0xn2'' \<rparr>
               (exampleTransfer ''0xh90'' 90 ''0xb0b'')],
          lastProcessedBlock = 90, reachedSafeHeight = False \<rparr>,
    logBlockChange (storeAt 0) exampleProvider 0 90 normal_advance)"
proof -
  have m: "maxBlockSeenOf 1 100 scenarioTransfers = 90"
    by (simp add: maxBlockSeenOf_def scenarioTransfers_def exampleTransfer_def inRange_def)
  have f: "filter (inRange 1 100) scenarioTransfers = scenarioTransfers"
    by (simp add: scenarioTransfers_def exampleTransfer_def inRange_def)
  have mt: "matchedTransactions exampleProvider exampleAllowList scenarioTransfers =
      [validTransactionOf exampleProvider
               \<lparr> fullName = ''alice.grid-wallet.hypr'', tba_namehash = ''0xn1'' \<rparr>
               (exampleTransfer ''0xh10'' 10 ''0xA11CE''),
             validTransactionOf exampleProvider
               \<lparr> fullName = ''bob.grid-wallet.hypr'', tba_namehash = ''0xn2'' \<rparr>
               (exampleTransfer ''0xh90'' 90 ''0xb0b'')]"
    by (simp add: matchedTransactions_def scenarioTransfers_def map_filter_simps
        exampleAllowList_def lower_examples exampleTransfer_def)
  have st: "staleWarnings 1 100 scenarioTransfers = []"
    by (simp add: staleWarnings_def scenarioTransfers_def exampleTransfer_def)
  have ne: "scenarioTransfers \<noteq> []" by (simp add: scenarioTransfers_def)
  have l: "loadValidatedBlock (storeAt 0) exampleProvider 100 = (Inr 0, storeAt 0)"
    by (rule load_storeAt) simp
  show ?thesis
    using process_fetched [where fetch = "\<lambda>w a b. Inr scenarioTransfers" and step = 100
        and tba = exampleAllowList, OF l]
    by (simp add: scenario_sorted m f mt st ne)
qed


lemma scenario_apply:
  "map (\<lambda>r. blockNumber (fst r))
     (hypermap_transactions (snd (reconcileAndApply 100 (\<lambda>w a b. Inr scenarioTransfers) noFaults
        exampleProvider exampleAllowList (storeAt 0) 100))) = [10, 90]
   \<and> last_processed_block (getProviderCurrentStats
        (snd (reconcileAndApply 100 (\<lambda>w a b. Inr scenarioTransfers) noFaults
           exampleProvider exampleAllowList (storeAt 0) 100)) exampleProvider) = 90"
proof -
  have r: "reconcileAndApply 100 (\<lambda>w a b. Inr scenarioTransfers) noFaults
        exampleProvider exampleAllowList (storeAt 0) 100 =
      applyProviderResult noFaults (logBlockChange (storeAt 0) exampleProvider 0 90 normal_advance)
        exampleProvider
        \<lparr> validTransactions =
            [validTransactionOf exampleProvider
               \<lparr> fullName = ''alice.grid-wallet.hypr'', tba_namehash = ''0xn1'' \<rparr>
               (exampleTransfer ''0xh10'' 10 ''0xA11CE''),
             validTransactionOf exampleProvider
               \<lparr> fullName = ''bob.grid-wallet.hypr'', tba_namehash = ''0xn2'' \<rparr>
               (exampleTransfer ''0xh90'' 90 ''0xb0b'')],
          lastProcessedBlock = 90, reachedSafeHeight = False \<rparr>"
    by (simp add: reconcileAndApply_def scenario_process)
  show ?thesis
    unfolding r
    by (simp add: applyProviderResult_def noFaults_def
      updatePaymentRecords_def insertOnConflictDoNothing_def logBlockChange_def
      validTransactionOf_def exampleTransfer_def storeAt_def emptyStore_def
      updateLeaderboardStatsIncremental_def Let_def getProviderCurrentStats_def
      exampleProvider_def resolve_currentStats)
qed

text \<open>
  C4. When the validation step has returned \<open>wm\<close>, the range from \<open>wm + 1\<close> to
  the safe height is not empty and the source returns at least one transfer, the engine
  returns the watermark \<open>min (maxBlockSeen, safeHeight)\<close>, where \<open>maxBlockSeen\<close> is
  the highest block among the fetched transfers in range, whatever the allow-list says.
  In the scenario (watermark 0, safe height 100, transfers at blocks 10, 50 and 90 whose
  senders are allowed, not allowed, allowed) the engine returns the two records of blocks
  10 and 90 and the watermark 90; applied, the ledger holds these two records and the
  stored watermark is 90.
\<close>
theorem C4_advance_to_max_block_seen:
  "(loadValidatedBlock db p safe = (Inr wm, db0) \<and> wm + 1 \<le> safe
      \<and> fetch (wallet_address p) (wm + 1) safe = Inr txs \<and> txs \<noteq> [] \<longrightarrow>
      (\<exists>r db1. processProviderTransactions step fetch p tba db safe = (Inr r, db1)
         \<and> lastProcessedBlock r = min (maxBlockSeenOf (wm + 1) safe txs) safe))
   \<and> (case fst (processProviderTransactions 100 (\<lambda>w a b. Inr scenarioTransfers) exampleProvider
                  exampleAllowList (storeAt 0) 100) of
         Inr r \<Rightarrow> map blockNumber (validTransactions r) = [10, 90] \<and> lastProcessedBlock r = 90
       | Inl e \<Rightarrow> False)
   \<and> map (\<lambda>r. blockNumber (fst r))
       (hypermap_transactions (snd (reconcileAndApply 100 (\<lambda>w a b. Inr scenarioTransfers) noFaults
          exampleProvider exampleAllowList (storeAt 0) 100))) = [10, 90]
   \<and> last_processed_block (getProviderCurrentStats
        (snd (reconcileAndApply 100 (\<lambda>w a b. Inr scenarioTransfers) noFaults
           exampleProvider exampleAllowList (storeAt 0) 100)) exampleProvider) = 90"
proof (intro conjI impI)
  assume h: "loadValidatedBlock db p safe = (Inr wm, db0) \<and> wm + 1 \<le> safe
      \<and> fetch (wallet_address p) (wm + 1) safe = Inr txs \<and> txs \<noteq> []"
  then show "\<exists>r db1. processProviderTransactions step fetch p tba db safe = (Inr r, db1)
         \<and> lastProcessedBlock r = min (maxBlockSeenOf (wm + 1) safe txs) safe"
    using process_fetched [where fetch = fetch and db = db and p = p and safe = safe
        and wm = wm and db0 = db0 and txs = txs and step = step and tba = tba]
    by (simp add: Let_def)
next
  show "case fst (processProviderTransactions 100 (\<lambda>w a b. Inr scenarioTransfers) exampleProvider
                  exampleAllowList (storeAt 0) 100) of
         Inr r \<Rightarrow> map blockNumber (validTransactions r) = [10, 90] \<and> lastProcessedBlock r = 90
       | Inl e \<Rightarrow> False"
    by (simp add: scenario_process validTransactionOf_def exampleTransfer_def)
qed (simp_all add: scenario_apply)


lemma stats_storeAt:
  "last_processed_block (getProviderCurrentStats (storeAt n) exampleProvider) = n"
  by (simp add: getProviderCurrentStats_def storeAt_def emptyStore_def)

theorem C4_advance_to_max_block_seen_witness:
  "loadValidatedBlock (storeAt 0) exampleProvider 100 = (Inr 0, storeAt 0)
   \<and> (0::int) + 1 \<le> 100 \<and> scenarioTransfers \<noteq> []
   \<and> (\<exists>r db1. processProviderTransactions 100 (\<lambda>w a b. Inr scenarioTransfers) exampleProvider
          exampleAllowList (storeAt 0) 100 = (Inr r, db1)
        \<and> lastProcessedBlock r = min (maxBlockSeenOf (0 + 1) 100 scenarioTransfers) 100)"
proof -
  have l: "loadValidatedBlock (storeAt 0) exampleProvider 100 = (Inr 0, storeAt 0)"
    by (rule load_storeAt) simp
  have ne: "scenarioTransfers \<noteq> []" by (simp add: scenarioTransfers_def)
  show ?thesis
    using C4_advance_to_max_block_seen [where db = "storeAt 0" and p = exampleProvider and safe = 100 and wm = 0
        and ?db0.0 = "storeAt 0" and fetch = "\<lambda>w a b. Inr scenarioTransfers"
        and txs = scenarioTransfers and step = 100 and tba = exampleAllowList] l ne
    by simp
qed

subsection \<open>Runs that fetch nothing\<close>

lemma matchedTransactions_Nil: "matchedTransactions p tba [] = []"
  by (simp add: matchedTransactions_def map_filter_simps)

lemma empty_fetch_not_reached:
  assumes "last_processed_block (getProviderCurrentStats db p) = wm"
    and "wm + 1 + step < safe" and "0 \<le> step"
    and "fetch (wallet_address p) (wm + 1) safe = Inr []"
  shows "provider_leaderboard (snd (reconcileAndApply step fetch flt p tba db safe)) =
           provider_leaderboard db"
proof -
  have load: "loadValidatedBlock db p safe = (Inr wm, db)"
    using loadValidatedBlock_sane [of db p safe] assms(1,2,3) by simp
  have rng: "wm + 1 \<le> safe" using assms(2,3) by simp
  show ?thesis
    using assms(2)
    by (simp add: reconcileAndApply_def process_fetched [where fetch = fetch, OF load rng assms(4)]
        matchedTransactions_Nil applyProviderResult_def logBlockChange_def Let_def)
qed

lemma repeatedRuns_stall:
  assumes "last_processed_block (getProviderCurrentStats db p) = wm"
    and "wm + 1 + step < safe" and "0 \<le> step"
    and "fetch (wallet_address p) (wm + 1) safe = Inr []"
  shows "provider_leaderboard (repeatedRuns n step fetch flt p tba safe db) = provider_leaderboard db"
  using assms(1)
proof (induction n arbitrary: db)
  case 0
  then show ?case by simp
next
  case (Suc n)
  let ?db1 = "snd (reconcileAndApply step fetch flt p tba db safe)"
  have eq: "provider_leaderboard ?db1 = provider_leaderboard db"
    using empty_fetch_not_reached [where fetch = fetch, OF Suc.prems assms(2,3,4)] .
  then have "last_processed_block (getProviderCurrentStats ?db1 p) = wm"
    using Suc.prems by (simp add: getProviderCurrentStats_def)
  from Suc.IH [OF this] eq show ?case by simp
qed

text \<open>
  C9, the code at the failing input. Watermark 0, safe height 1000, step 100, and a
  source that returns no transfer on every run: the engine returns 101 each time, short
  of the safe height, the loop body writes the watermark only when the safe height is
  reached, and so after any number of runs the stored watermark is still 0.
\<close>

theorem C9_zero_fetch_stalls:
  "last_processed_block (getProviderCurrentStats
     (repeatedRuns n 100 (\<lambda>w a b. Inr []) noFaults exampleProvider exampleAllowList 1000
        (storeAt 0)) exampleProvider) = 0"
proof -
  have "provider_leaderboard (repeatedRuns n 100 (\<lambda>w a b. Inr []) noFaults exampleProvider
          exampleAllowList 1000 (storeAt 0)) = provider_leaderboard (storeAt 0)"
    by (rule repeatedRuns_stall [where wm = 0]) (simp_all add: stats_storeAt)
  then show ?thesis
    using stats_storeAt [of 0] by (simp add: getProviderCurrentStats_def)
qed

subsection \<open>The ledger writer\<close>

lemma insertTransactions_None:
  "\<exists>table'. insertTransactions None name valid table = Inr table'"
  by (induction valid arbitrary: table) simp_all

lemma insertTransactions_rejected:
  "k < length valid \<Longrightarrow> insertTransactions (Some k) name valid table = Inl QueryRejected"
proof (induction valid arbitrary: k table)
  case Nil
  then show ?case by simp
next
  case (Cons tx rest)
  then show ?case by (cases k) simp_all
qed

lemma insertTransactions_beyond:
  "length valid \<le> k \<Longrightarrow>
     insertTransactions (Some k) name valid table = insertTransactions None name valid table"
proof (induction valid arbitrary: k table)
  case Nil
  then show ?case by simp
next
  case (Cons tx rest)
  then show ?case by (cases k) simp_all
qed

lemma insertTransactions_faults:
  "insertTransactions (rejectInsertAt flt) name valid table =
     (if insertRejected flt valid then Inl QueryRejected
      else insertTransactions None name valid table)"
  by (cases "rejectInsertAt flt")
     (simp_all add: insertRejected_def insertTransactions_rejected insertTransactions_beyond)

lemma insertTransactions_set:
  "insertTransactions k name valid table = Inr table' \<Longrightarrow>
     set table' \<subseteq> set table \<union> (\<lambda>v. (v, name)) ` set valid"
proof (induction valid arbitrary: k table)
  case Nil
  then show ?case by simp
next
  case (Cons tx rest)
  from Cons.prems have "insertTransactions (map_option (\<lambda>k. k - 1) k) name rest
       (insertOnConflictDoNothing (tx, name) table) = Inr table'"
    by (simp split: if_splits)
  from Cons.IH [OF this] show ?case
    by (auto simp: insertOnConflictDoNothing_def split: if_splits)
qed

lemma applyProviderResult_ledger:
  "set (hypermap_transactions (snd (applyProviderResult flt db p r))) \<subseteq>
     set (hypermap_transactions db) \<union> (\<lambda>v. (v, full_name p)) ` set (validTransactions r)"
proof (cases "insertTransactions (rejectInsertAt flt) (full_name p) (validTransactions r)
                (hypermap_transactions db)")
  case (Inl e)
  then show ?thesis
    by (auto simp: applyProviderResult_def updatePaymentRecords_def updateLastProcessedBlock_throws
        split: if_splits)
next
  case (Inr table')
  from insertTransactions_set [OF this] Inr show ?thesis
    by (auto simp: applyProviderResult_def updatePaymentRecords_def updateLastProcessedBlock_throws
        updateLeaderboardStatsIncremental_def Let_def split: if_splits)
qed

lemma loadValidatedBlock_ledger:
  "loadValidatedBlock db p safe = (out, db0) \<Longrightarrow>
     hypermap_transactions db0 = hypermap_transactions db"
  by (auto simp: loadValidatedBlock_def Let_def updateLastProcessedBlock_throws logBlockChange_def
      split: prod.splits if_splits sum.splits)

lemma matchedTransactions_blocks:
  "v \<in> set (matchedTransactions p tba txs) \<Longrightarrow> \<exists>tx \<in> set txs. blockNumber v = raw_blockNumber tx"
  by (induction txs)
     (auto simp: matchedTransactions_def map_filter_simps validTransactionOf_def split: option.splits)

lemma filter_inRange_idem:
  "filter (inRange a b) (filter (inRange a b) txs) = filter (inRange a b) txs"
  by simp

lemma maxBlockSeenOf_filter:
  "maxBlockSeenOf a b (filter (inRange a b) txs) = maxBlockSeenOf a b txs"
  by (simp add: maxBlockSeenOf_def)

lemma staleWarnings_below:
  "fromBlock \<le> safe + 1 \<Longrightarrow>
   staleWarnings fromBlock safe txs =
     map (\<lambda>tx. BeforeFromBlock (raw_hash tx) (raw_blockNumber tx) fromBlock)
       (filter (\<lambda>tx. raw_blockNumber tx < fromBlock) txs)"
proof -
  assume le: "fromBlock \<le> safe + 1"
  have "filter (\<lambda>tx. raw_blockNumber tx \<le> safe \<and> raw_blockNumber tx < fromBlock) txs =
        filter (\<lambda>tx. raw_blockNumber tx < fromBlock) txs"
    using le by (intro filter_cong) auto
  then show ?thesis by (simp only: staleWarnings_def)
qed

text \<open>
  C8, as amended. When the validation step has returned \<open>wm\<close>, the range is not
  empty and the source answers, the engine does not fail. Compared with the same answer
  stripped of every transfer below \<open>wm + 1\<close> or above the safe height, it returns
  the same transaction records, all of them with a block in range; \<open>maxBlockSeen\<close>
  is the maximum over the transfers in range only; the whole result is the same as soon
  as one fetched transfer is in range. A warning is printed for each transfer below
  \<open>wm + 1\<close> and for no other. Whatever faults occur while applying the result, every
  row then found in the ledger was there before or has a block in range.
\<close>

theorem C8_out_of_range_discarded:
  assumes "loadValidatedBlock db p safe = (Inr wm, db0)" and "wm + 1 \<le> safe"
    and "fetch (wallet_address p) (wm + 1) safe = Inr txs"
    and "fetch' (wallet_address p) (wm + 1) safe = Inr (filter (inRange (wm + 1) safe) txs)"
  shows "\<exists>r db1 r' db1'.
      processProviderTransactions step fetch p tba db safe = (Inr r, db1)
    \<and> processProviderTransactions step fetch' p tba db safe = (Inr r', db1')
    \<and> validTransactions r = validTransactions r'
    \<and> (\<forall>v \<in> set (validTransactions r). wm + 1 \<le> blockNumber v \<and> blockNumber v \<le> safe)
    \<and> (txs \<noteq> [] \<longrightarrow>
         lastProcessedBlock r =
           min (maxBlockSeenOf (wm + 1) safe (filter (inRange (wm + 1) safe) txs)) safe)
    \<and> (filter (inRange (wm + 1) safe) txs \<noteq> [] \<longrightarrow> r = r')
    \<and> console_warn db1 = console_warn db0
         @ map (\<lambda>tx. BeforeFromBlock (raw_hash tx) (raw_blockNumber tx) (wm + 1))
             (filter (\<lambda>tx. raw_blockNumber tx < wm + 1) (sort_key raw_blockNumber txs))
    \<and> (\<forall>row \<in> set (hypermap_transactions (snd (applyProviderResult flt db1 p r))).
          row \<in> set (hypermap_transactions db)
          \<or> (wm + 1 \<le> blockNumber (fst row) \<and> blockNumber (fst row) \<le> safe))"
proof -
  let ?F = "filter (inRange (wm + 1) safe)"
  let ?lpb = "if txs = [] then min (wm + 1 + step) safe
              else min (maxBlockSeenOf (wm + 1) safe txs) safe"
  let ?lpb' = "if ?F txs = [] then min (wm + 1 + step) safe
              else min (maxBlockSeenOf (wm + 1) safe txs) safe"
  let ?valid = "matchedTransactions p tba (?F (sort_key raw_blockNumber txs))"
  let ?r = "\<lparr> validTransactions = ?valid, lastProcessedBlock = ?lpb,
              reachedSafeHeight = (?lpb \<ge> safe) \<rparr>"
  let ?r' = "\<lparr> validTransactions = ?valid, lastProcessedBlock = ?lpb',
              reachedSafeHeight = (?lpb' \<ge> safe) \<rparr>"
  let ?db1 = "logBlockChange
            (db0\<lparr> console_warn := console_warn db0
                     @ staleWarnings (wm + 1) safe (sort_key raw_blockNumber txs) \<rparr>)
            p wm ?lpb (if txs = [] then conservative_advance else normal_advance)"
  have P: "processProviderTransactions step fetch p tba db safe = (Inr ?r, ?db1)"
    using process_fetched [where fetch = fetch, OF assms(1,2,3)] by (simp add: Let_def)
  have srt: "?F (sort_key raw_blockNumber (?F txs)) = ?F (sort_key raw_blockNumber txs)"
    by (simp add: filter_sort [symmetric])
  obtain db1' where P': "processProviderTransactions step fetch' p tba db safe = (Inr ?r', db1')"
    using process_fetched [where fetch = fetch', OF assms(1,2,4), of step tba]
    by (simp add: Let_def srt maxBlockSeenOf_filter)
  have blocks: "\<forall>v \<in> set ?valid. wm + 1 \<le> blockNumber v \<and> blockNumber v \<le> safe"
  proof
    fix v assume "v \<in> set ?valid"
    from matchedTransactions_blocks [OF this]
    show "wm + 1 \<le> blockNumber v \<and> blockNumber v \<le> safe"
      by (auto simp: inRange_def)
  qed
  have led: "hypermap_transactions ?db1 = hypermap_transactions db"
    using loadValidatedBlock_ledger [OF assms(1)] by (simp add: logBlockChange_def)
  have rows: "\<forall>row \<in> set (hypermap_transactions (snd (applyProviderResult flt ?db1 p ?r))).
          row \<in> set (hypermap_transactions db)
          \<or> (wm + 1 \<le> blockNumber (fst row) \<and> blockNumber (fst row) \<le> safe)"
  proof
    fix row assume "row \<in> set (hypermap_transactions (snd (applyProviderResult flt ?db1 p ?r)))"
    with applyProviderResult_ledger [of flt ?db1 p ?r] led
    have "row \<in> set (hypermap_transactions db) \<or> row \<in> (\<lambda>v. (v, full_name p)) ` set ?valid"
      by auto
    with blocks show "row \<in> set (hypermap_transactions db)
          \<or> (wm + 1 \<le> blockNumber (fst row) \<and> blockNumber (fst row) \<le> safe)"
      by auto
  qed
  have warn: "console_warn ?db1 = console_warn db0
         @ map (\<lambda>tx. BeforeFromBlock (raw_hash tx) (raw_blockNumber tx) (wm + 1))
             (filter (\<lambda>tx. raw_blockNumber tx < wm + 1) (sort_key raw_blockNumber txs))"
    using assms(2) by (simp add: logBlockChange_def staleWarnings_below)
  have same: "?F txs \<noteq> [] \<longrightarrow> ?r = ?r'" by auto
  have lpb: "txs \<noteq> [] \<longrightarrow> lastProcessedBlock ?r =
           min (maxBlockSeenOf (wm + 1) safe (?F txs)) safe"
    by (simp add: maxBlockSeenOf_filter)
  have vr: "validTransactions ?r = validTransactions ?r'" by simp
  have br: "\<forall>v \<in> set (validTransactions ?r). wm + 1 \<le> blockNumber v \<and> blockNumber v \<le> safe"
    using blocks by simp
  show ?thesis
    apply (rule exI [where x = ?r])
    apply (rule exI [where x = ?db1])
    apply (rule exI [where x = ?r'])
    apply (rule exI [where x = db1'])
    apply (intro conjI)
           apply (rule P)
          apply (rule P')
         apply (rule vr)
        apply (rule br)
       apply (rule lpb)
      apply (rule same)
     apply (rule warn)
    apply (rule rows)
    done
qed

lemma process_stale_only:
  "processProviderTransactions 100 (\<lambda>w a b. Inr [exampleTransfer ''0xh5'' 5 ''0xb0b''])
     exampleProvider exampleAllowList (storeAt 10) 1000 =
   (Inr \<lparr> validTransactions = [], lastProcessedBlock = 10, reachedSafeHeight = False \<rparr>,
    logBlockChange ((storeAt 10)\<lparr> console_warn := console_warn (storeAt 10)
        @ [BeforeFromBlock ''0xh5'' 5 11] \<rparr>) exampleProvider 10 10 normal_advance)"
proof -
  have l: "loadValidatedBlock (storeAt 10) exampleProvider 1000 = (Inr 10, storeAt 10)"
    by (rule load_storeAt) simp
  show ?thesis
    using process_fetched [where fetch = "\<lambda>w a b. Inr [exampleTransfer ''0xh5'' 5 ''0xb0b'']"
        and step = 100 and tba = exampleAllowList, OF l]
    by (simp add: maxBlockSeenOf_def inRange_def exampleTransfer_def matchedTransactions_def
        map_filter_simps staleWarnings_def)
qed

lemma process_beyond_only:
  "processProviderTransactions 100 (\<lambda>w a b. Inr [exampleTransfer ''0xh2000'' 2000 ''0xb0b''])
     exampleProvider exampleAllowList (storeAt 10) 1000 =
   (Inr \<lparr> validTransactions = [], lastProcessedBlock = 10, reachedSafeHeight = False \<rparr>,
    logBlockChange ((storeAt 10)\<lparr> console_warn := console_warn (storeAt 10) @ [] \<rparr>)
      exampleProvider 10 10 normal_advance)"
proof -
  have l: "loadValidatedBlock (storeAt 10) exampleProvider 1000 = (Inr 10, storeAt 10)"
    by (rule load_storeAt) simp
  show ?thesis
    using process_fetched [where fetch = "\<lambda>w a b. Inr [exampleTransfer ''0xh2000'' 2000 ''0xb0b'']"
        and step = 100 and tba = exampleAllowList, OF l]
    by (simp add: maxBlockSeenOf_def inRange_def exampleTransfer_def matchedTransactions_def
        map_filter_simps staleWarnings_def)
qed

lemma process_nothing:
  "processProviderTransactions 100 (\<lambda>w a b. Inr [])
     exampleProvider exampleAllowList (storeAt 10) 1000 =
   (Inr \<lparr> validTransactions = [], lastProcessedBlock = 111, reachedSafeHeight = False \<rparr>,
    logBlockChange ((storeAt 10)\<lparr> console_warn := console_warn (storeAt 10) @ [] \<rparr>)
      exampleProvider 10 111 conservative_advance)"
proof -
  have l: "loadValidatedBlock (storeAt 10) exampleProvider 1000 = (Inr 10, storeAt 10)"
    by (rule load_storeAt) simp
  show ?thesis
    using process_fetched [where fetch = "\<lambda>w a b. Inr []"
        and step = 100 and tba = exampleAllowList, OF l]
    by (simp add: matchedTransactions_def map_filter_simps staleWarnings_def)
qed

lemma console_storeAt: "console_warn (storeAt n) = []"
  by (simp add: storeAt_def emptyStore_def)

text \<open>
  C8, counterexample. Watermark 10, safe height 1000, step 100. A fetched transfer at
  block 2000 is dropped with no warning at all. A fetched transfer at block 5, alone in
  the answer, is dropped but decides the advance: the watermark returned is 10, where the
  empty answer gives 111.
\<close>

theorem C8_discard_counterexample:
  "console_warn (snd (processProviderTransactions 100
      (\<lambda>w a b. Inr [exampleTransfer ''0xh2000'' 2000 ''0xb0b''])
      exampleProvider exampleAllowList (storeAt 10) 1000)) = []
   \<and> fst (processProviderTransactions 100 (\<lambda>w a b. Inr [exampleTransfer ''0xh5'' 5 ''0xb0b''])
          exampleProvider exampleAllowList (storeAt 10) 1000) =
       Inr \<lparr> validTransactions = [], lastProcessedBlock = 10, reachedSafeHeight = False \<rparr>
   \<and> fst (processProviderTransactions 100 (\<lambda>w a b. Inr [])
          exampleProvider exampleAllowList (storeAt 10) 1000) =
       Inr \<lparr> validTransactions = [], lastProcessedBlock = 111, reachedSafeHeight = False \<rparr>"
  by (simp add: process_stale_only process_beyond_only process_nothing logBlockChange_def
      console_storeAt)

theorem C8_out_of_range_discarded_witness:
  "loadValidatedBlock (storeAt 10) exampleProvider 1000 = (Inr 10, storeAt 10)
   \<and> (10::int) + 1 \<le> 1000
   \<and> mixedTransfers \<noteq> []
   \<and> filter (inRange (10 + 1) 1000) mixedTransfers = [exampleTransfer ''0xh20'' 20 ''0xb0b'']
   \<and> (\<exists>r db1.
        processProviderTransactions 100 (\<lambda>w a b. Inr mixedTransfers) exampleProvider
          exampleAllowList (storeAt 10) 1000 = (Inr r, db1)
        \<and> lastProcessedBlock r =
            min (maxBlockSeenOf (10 + 1) 1000 (filter (inRange (10 + 1) 1000) mixedTransfers)) 1000
        \<and> console_warn db1 = console_warn (storeAt 10)
            @ map (\<lambda>tx. BeforeFromBlock (raw_hash tx) (raw_blockNumber tx) (10 + 1))
                (filter (\<lambda>tx. raw_blockNumber tx < 10 + 1) (sort_key raw_blockNumber mixedTransfers)))"
proof -
  have l: "loadValidatedBlock (storeAt 10) exampleProvider 1000 = (Inr 10, storeAt 10)"
    by (rule load_storeAt) simp
  have rng: "(10::int) + 1 \<le> 1000" by simp
  have ne: "mixedTransfers \<noteq> []" by (simp add: mixedTransfers_def)
  have f: "filter (inRange (10 + 1) 1000) mixedTransfers = [exampleTransfer ''0xh20'' 20 ''0xb0b'']"
    by (simp add: mixedTransfers_def inRange_def exampleTransfer_def)
  have f1: "(\<lambda>w a b. Inr mixedTransfers) (wallet_address exampleProvider) (10 + 1) (1000::int)
              = (Inr mixedTransfers :: error + raw_transfer list)"
    by simp
  have f2: "(\<lambda>w a b. Inr [exampleTransfer ''0xh20'' 20 ''0xb0b''])
              (wallet_address exampleProvider) (10 + 1) (1000::int)
              = (Inr (filter (inRange (10 + 1) 1000) mixedTransfers) :: error + raw_transfer list)"
    using f by simp
  from C8_out_of_range_discarded [where fetch = "\<lambda>w a b. Inr mixedTransfers"
      and fetch' = "\<lambda>w a b. Inr [exampleTransfer ''0xh20'' 20 ''0xb0b'']"
      and step = 100 and tba = exampleAllowList and flt = noFaults, OF l rng f1 f2]
  obtain r db1 where
    "processProviderTransactions 100 (\<lambda>w a b. Inr mixedTransfers) exampleProvider
          exampleAllowList (storeAt 10) 1000 = (Inr r, db1)"
    "mixedTransfers \<noteq> [] \<longrightarrow> lastProcessedBlock r =
            min (maxBlockSeenOf (10 + 1) 1000 (filter (inRange (10 + 1) 1000) mixedTransfers)) 1000"
    "console_warn db1 = console_warn (storeAt 10)
            @ map (\<lambda>tx. BeforeFromBlock (raw_hash tx) (raw_blockNumber tx) (10 + 1))
                (filter (\<lambda>tx. raw_blockNumber tx < 10 + 1) (sort_key raw_blockNumber mixedTransfers))"
    by blast
  with l rng ne f show ?thesis by blast
qed

subsection \<open>Atomicity of the ledger writer\<close>

lemma updateLeaderboardStatsIncremental_ok:
  "updateLeaderboardStatsIncremental False db p valid lpb = (out, db') \<Longrightarrow>
     out = Inr ()
     \<and> hypermap_transactions db' = hypermap_transactions db
     \<and> last_processed_block (getProviderCurrentStats db' p) = lpb
     \<and> transaction_count (getProviderCurrentStats db' p) =
         transaction_count (getProviderCurrentStats db p) + int (length valid)
     \<and> total_usdc_received (getProviderCurrentStats db' p) =
         total_usdc_received (getProviderCurrentStats db p)
           + foldl (\<lambda>sum tx. sum + valueUsdc tx) 0 valid"
  by (auto simp: updateLeaderboardStatsIncremental_def Let_def getProviderCurrentStats_def
      emptyStats_def split: option.splits)

text \<open>
  C3, as amended. For a non-empty batch, with \<open>table\<close> the ledger after all its
  inserts: the inserts are one atomic unit (if one of them is rejected nothing at all is
  changed), and the statistics with the watermark are a second one, written by a single
  statement. If the inserts succeed and the statistics upsert is rejected, the inserts
  stay committed and the leaderboard row is untouched; if nothing is rejected, the ledger
  is \<open>table\<close> and the row holds the new watermark together with the increased count
  and total. The store never shows the statistics of the batch without its watermark or
  the watermark without the statistics.
\<close>

theorem C3_two_atomic_units:
  assumes "validTransactions r \<noteq> []"
    and "insertTransactions None (full_name p) (validTransactions r) (hypermap_transactions db)
           = Inr table"
  shows "(insertRejected flt (validTransactions r) \<longrightarrow>
            applyProviderResult flt db p r = (Inl QueryRejected, db))
       \<and> (\<not> insertRejected flt (validTransactions r) \<and> rejectStatsUpsert flt \<longrightarrow>
            applyProviderResult flt db p r =
              (Inl QueryRejected, db\<lparr> hypermap_transactions := table \<rparr>))
       \<and> (\<not> insertRejected flt (validTransactions r) \<and> \<not> rejectStatsUpsert flt \<longrightarrow>
            hypermap_transactions (snd (applyProviderResult flt db p r)) = table
            \<and> last_processed_block (getProviderCurrentStats (snd (applyProviderResult flt db p r)) p)
                = lastProcessedBlock r
            \<and> transaction_count (getProviderCurrentStats (snd (applyProviderResult flt db p r)) p)
                = transaction_count (getProviderCurrentStats db p)
                  + int (length (validTransactions r))
            \<and> total_usdc_received (getProviderCurrentStats (snd (applyProviderResult flt db p r)) p)
                = total_usdc_received (getProviderCurrentStats db p)
                  + foldl (\<lambda>sum tx. sum + valueUsdc tx) 0 (validTransactions r))"
proof (intro conjI impI)
  assume "insertRejected flt (validTransactions r)"
  then show "applyProviderResult flt db p r = (Inl QueryRejected, db)"
    using assms(1)
    by (simp add: applyProviderResult_def updatePaymentRecords_def insertTransactions_faults)
next
  assume "\<not> insertRejected flt (validTransactions r) \<and> rejectStatsUpsert flt"
  then show "applyProviderResult flt db p r =
              (Inl QueryRejected, db\<lparr> hypermap_transactions := table \<rparr>)"
    using assms
    by (simp add: applyProviderResult_def updatePaymentRecords_def insertTransactions_faults
        updateLeaderboardStatsIncremental_def Let_def)
next
  assume h: "\<not> insertRejected flt (validTransactions r) \<and> \<not> rejectStatsUpsert flt"
  let ?db1 = "db\<lparr> hypermap_transactions := table \<rparr>"
  obtain out db2 where u: "updateLeaderboardStatsIncremental False ?db1 p (validTransactions r)
       (lastProcessedBlock r) = (out, db2)"
    by (cases "updateLeaderboardStatsIncremental False ?db1 p (validTransactions r)
       (lastProcessedBlock r)") blast
  note ok = updateLeaderboardStatsIncremental_ok [OF u]
  have a: "snd (applyProviderResult flt db p r) = db2"
    using assms h u ok
    by (simp add: applyProviderResult_def updatePaymentRecords_def insertTransactions_faults)
  have s: "getProviderCurrentStats ?db1 p = getProviderCurrentStats db p"
    by (simp add: getProviderCurrentStats_def)
  show "hypermap_transactions (snd (applyProviderResult flt db p r)) = table"
    using a ok by simp
  show "last_processed_block (getProviderCurrentStats (snd (applyProviderResult flt db p r)) p)
          = lastProcessedBlock r"
    using a ok by simp
  show "transaction_count (getProviderCurrentStats (snd (applyProviderResult flt db p r)) p)
          = transaction_count (getProviderCurrentStats db p) + int (length (validTransactions r))"
    using a ok s by simp
  show "total_usdc_received (getProviderCurrentStats (snd (applyProviderResult flt db p r)) p)
          = total_usdc_received (getProviderCurrentStats db p)
            + foldl (\<lambda>sum tx. sum + valueUsdc tx) 0 (validTransactions r)"
    using a ok s by simp
qed

lemma scenario_reconcile:
  "reconcileAndApply 100 (\<lambda>w a b. Inr scenarioTransfers) flt exampleProvider exampleAllowList
     (storeAt 0) 100 =
   applyProviderResult flt (logBlockChange (storeAt 0) exampleProvider 0 90 normal_advance)
     exampleProvider scenarioResult"
  by (simp add: reconcileAndApply_def scenario_process scenarioResult_def)

lemma scenario_valid_nonempty: "validTransactions scenarioResult \<noteq> []"
  by (simp add: scenarioResult_def)

lemma scenario_insert:
  "insertTransactions None (full_name exampleProvider) (validTransactions scenarioResult) []
     = Inr scenarioRows"
  by (simp add: scenarioResult_def scenarioRows_def insertOnConflictDoNothing_def
      validTransactionOf_def exampleTransfer_def)

lemma scenario_faults:
  "insertRejected secondInsertRejected (validTransactions scenarioResult)"
  "\<not> insertRejected statsRejected (validTransactions scenarioResult)"
  "rejectStatsUpsert statsRejected"
  "\<not> insertRejected noFaults (validTransactions scenarioResult)"
  "\<not> rejectStatsUpsert noFaults"
  by (simp_all add: insertRejected_def secondInsertRejected_def statsRejected_def noFaults_def
      scenarioResult_def)

lemma ledger_logged: "hypermap_transactions (logBlockChange db p a b c) = hypermap_transactions db"
  by (simp add: logBlockChange_def)

lemma ledger_storeAt: "hypermap_transactions (storeAt n) = []"
  by (simp add: storeAt_def emptyStore_def)

lemma stats_logged: "getProviderCurrentStats (logBlockChange db p a b c) q = getProviderCurrentStats db q"
  by (simp add: logBlockChange_def getProviderCurrentStats_def)

lemma scenario_stats_rejected:
  "reconcileAndApply 100 (\<lambda>w a b. Inr scenarioTransfers) statsRejected exampleProvider
     exampleAllowList (storeAt 0) 100 =
   (Inl QueryRejected,
    (logBlockChange (storeAt 0) exampleProvider 0 90 normal_advance)
      \<lparr> hypermap_transactions := scenarioRows \<rparr>)"
  by (simp add: scenario_reconcile applyProviderResult_def scenario_valid_nonempty
      updatePaymentRecords_def statsRejected_def scenario_insert ledger_logged ledger_storeAt
      updateLeaderboardStatsIncremental_def Let_def)

text \<open>
  C3, counterexample. In the scenario, with the statistics upsert rejected after the
  inserts were committed: the run ends in an error, the ledger, empty before, holds the
  records of blocks 10 and 90, and the provider's statistics and watermark are unchanged.
  The unit was not rolled back as a whole.
\<close>

theorem C3_partial_apply_counterexample:
  "fst (reconcileAndApply 100 (\<lambda>w a b. Inr scenarioTransfers) statsRejected exampleProvider
          exampleAllowList (storeAt 0) 100) = Inl QueryRejected
   \<and> map (\<lambda>r. blockNumber (fst r))
        (hypermap_transactions (snd (reconcileAndApply 100 (\<lambda>w a b. Inr scenarioTransfers)
           statsRejected exampleProvider exampleAllowList (storeAt 0) 100))) = [10, 90]
   \<and> hypermap_transactions (storeAt 0) = []
   \<and> getProviderCurrentStats (snd (reconcileAndApply 100 (\<lambda>w a b. Inr scenarioTransfers)
           statsRejected exampleProvider exampleAllowList (storeAt 0) 100)) exampleProvider
       = getProviderCurrentStats (storeAt 0) exampleProvider"
  by (simp add: scenario_stats_rejected ledger_storeAt scenarioRows_def
      scenarioResult_def validTransactionOf_def exampleTransfer_def
      getProviderCurrentStats_def logBlockChange_def)

theorem C3_two_atomic_units_witness:
  "validTransactions scenarioResult \<noteq> []
   \<and> insertTransactions None (full_name exampleProvider) (validTransactions scenarioResult)
       (hypermap_transactions (storeAt 0)) = Inr scenarioRows
   \<and> applyProviderResult secondInsertRejected (storeAt 0) exampleProvider scenarioResult =
       (Inl QueryRejected, storeAt 0)
   \<and> applyProviderResult statsRejected (storeAt 0) exampleProvider scenarioResult =
       (Inl QueryRejected, (storeAt 0)\<lparr> hypermap_transactions := scenarioRows \<rparr>)
   \<and> hypermap_transactions (snd (applyProviderResult noFaults (storeAt 0) exampleProvider
         scenarioResult)) = scenarioRows
   \<and> last_processed_block (getProviderCurrentStats
         (snd (applyProviderResult noFaults (storeAt 0) exampleProvider scenarioResult))
         exampleProvider) = 90
   \<and> transaction_count (getProviderCurrentStats
         (snd (applyProviderResult noFaults (storeAt 0) exampleProvider scenarioResult))
         exampleProvider) = 2"
proof -
  have i: "insertTransactions None (full_name exampleProvider) (validTransactions scenarioResult)
       (hypermap_transactions (storeAt 0)) = Inr scenarioRows"
    by (simp add: ledger_storeAt scenario_insert)
  note t = C3_two_atomic_units [OF scenario_valid_nonempty i]
  have c0: "transaction_count (getProviderCurrentStats (storeAt 0) exampleProvider) = 0"
    by (simp add: getProviderCurrentStats_def storeAt_def emptyStore_def emptyStats_def)
  have l: "lastProcessedBlock scenarioResult = 90" "int (length (validTransactions scenarioResult)) = 2"
    by (simp_all add: scenarioResult_def)
  have 1: "applyProviderResult secondInsertRejected (storeAt 0) exampleProvider scenarioResult =
       (Inl QueryRejected, storeAt 0)"
    using t [where flt = secondInsertRejected] scenario_faults by blast
  have 2: "applyProviderResult statsRejected (storeAt 0) exampleProvider scenarioResult =
       (Inl QueryRejected, (storeAt 0)\<lparr> hypermap_transactions := scenarioRows \<rparr>)"
    using t [where flt = statsRejected] scenario_faults by blast
  have 3: "hypermap_transactions (snd (applyProviderResult noFaults (storeAt 0) exampleProvider
         scenarioResult)) = scenarioRows
     \<and> last_processed_block (getProviderCurrentStats
         (snd (applyProviderResult noFaults (storeAt 0) exampleProvider scenarioResult))
         exampleProvider) = lastProcessedBlock scenarioResult
     \<and> transaction_count (getProviderCurrentStats
         (snd (applyProviderResult noFaults (storeAt 0) exampleProvider scenarioResult))
         exampleProvider) = transaction_count (getProviderCurrentStats (storeAt 0) exampleProvider)
                  + int (length (validTransactions scenarioResult))"
    using t [where flt = noFaults] scenario_faults by blast
  from 3 c0 l have 4: "last_processed_block (getProviderCurrentStats
         (snd (applyProviderResult noFaults (storeAt 0) exampleProvider scenarioResult))
         exampleProvider) = 90
     \<and> transaction_count (getProviderCurrentStats
         (snd (applyProviderResult noFaults (storeAt 0) exampleProvider scenarioResult))
         exampleProvider) = 2"
    by simp
  from scenario_valid_nonempty i 1 2 3 4 show ?thesis by blast
qed

subsection \<open>Running twice against the same data; the watermark over a run\<close>

lemma logBlockChange_keeps:
  "aggregateStats (logBlockChange db p a b c) q = aggregateStats db q"
  "hypermap_transactions (logBlockChange db p a b c) = hypermap_transactions db"
  "watermark (logBlockChange db p a b c) q = watermark db q"
  by (simp_all add: logBlockChange_def aggregateStats_def watermark_def getProviderCurrentStats_def)

lemma console_keeps:
  "aggregateStats (db\<lparr> console_warn := w \<rparr>) q = aggregateStats db q"
  "hypermap_transactions (db\<lparr> console_warn := w \<rparr>) = hypermap_transactions db"
  "watermark (db\<lparr> console_warn := w \<rparr>) q = watermark db q"
  by (simp_all add: aggregateStats_def watermark_def getProviderCurrentStats_def)

text \<open>
  The validation step: it returns the stored watermark and writes nothing when that is at
  most 1000 above the safe height, and otherwise fails at the repair write, having only
  printed its warning.
\<close>

lemma loadValidatedBlock_cases:
  assumes "loadValidatedBlock db p safe = (out, db0)"
  shows "aggregateStats db0 p = aggregateStats db p
       \<and> hypermap_transactions db0 = hypermap_transactions db
       \<and> watermark db0 p = watermark db p
       \<and> (case out of
            Inl e \<Rightarrow> safe + 1000 < watermark db p
          | Inr v \<Rightarrow> v = watermark db p \<and> v \<le> safe + 1000 \<and> db0 = db)"
proof (cases "watermark db p \<le> safe + 1000")
  case True
  with assms loadValidatedBlock_sane [of db p safe] show ?thesis
    by (auto simp: watermark_def)
next
  case False
  let ?s = "last_processed_block (getProviderCurrentStats db p)"
  have ne: "fst (validateAndFixBlockNumber ?s safe (full_name p)) \<noteq> ?s"
    using False by (auto simp: validateAndFixBlockNumber_value watermark_def)
  from assms ne obtain e where "out = Inl e"
    "db0 = db\<lparr> console_warn := console_warn db
              @ snd (validateAndFixBlockNumber ?s safe (full_name p)) \<rparr>"
    by (auto simp: loadValidatedBlock_def Let_def updateLastProcessedBlock_throws
        split: prod.splits)
  with False show ?thesis by (simp add: console_keeps)
qed

lemma applyProviderResult_empty:
  assumes "validTransactions r = []"
  shows "snd (applyProviderResult flt db p r) = db"
  using assms by (simp add: applyProviderResult_def updateLastProcessedBlock_throws)

lemma matchedTransactions_empty:
  "matchedTransactions p tba txs = [] \<longleftrightarrow>
     (\<forall>tx \<in> set txs. tba (toLowerCase (raw_from tx)) = None)"
  by (induction txs) (auto simp: matchedTransactions_def map_filter_simps split: option.splits)

lemma fetched_set:
  "fixedUpstream U w a b = Inr txs \<Longrightarrow>
     set txs = {tx \<in> set U. a \<le> raw_blockNumber tx \<and> raw_blockNumber tx \<le> b
                          \<and> toLowerCase (raw_to tx) = toLowerCase w}"
  by (auto simp: fixedUpstream_def)

lemma fixedUpstream_Inr: "\<exists>txs. fixedUpstream U w a b = Inr txs"
  by (simp add: fixedUpstream_def)

text \<open>
  A processing run over a fixed data set returns no record exactly when nothing new lies
  above the validated watermark.
\<close>

lemma valid_empty_iff:
  assumes "fixedUpstream U (wallet_address p) (v + 1) safe = Inr txs"
  shows "matchedTransactions p tba (filter (inRange (v + 1) safe) (sort_key raw_blockNumber txs)) = []
         \<longleftrightarrow> nothingNewAbove U p tba safe v"
  using fetched_set [OF assms]
  by (auto simp: matchedTransactions_empty nothingNewAbove_def inRange_def)

lemma nothing_above_max:
  assumes "fixedUpstream U (wallet_address p) (v + 1) safe = Inr txs"
  shows "nothingNewAbove U p tba safe (min (maxBlockSeenOf (v + 1) safe txs) safe)"
proof -
  have "raw_blockNumber tx \<le> maxBlockSeenOf (v + 1) safe txs"
    if "tx \<in> set txs" for tx
  proof -
    from that fetched_set [OF assms] have "inRange (v + 1) safe tx" by (auto simp: inRange_def)
    with that show ?thesis by (auto simp: maxBlockSeenOf_def intro!: Max_ge)
  qed
  moreover have "v \<le> maxBlockSeenOf (v + 1) safe txs"
    by (auto simp: maxBlockSeenOf_def intro!: Max_ge)
  ultimately show ?thesis
    using fetched_set [OF assms]
    by (fastforce simp: nothingNewAbove_def)
qed

lemma apply_nonempty_noFaults:
  assumes "validTransactions r \<noteq> []"
  shows "watermark (snd (applyProviderResult noFaults db p r)) p = lastProcessedBlock r"
proof -
  obtain table where i: "insertTransactions None (full_name p) (validTransactions r)
      (hypermap_transactions db) = Inr table"
    using insertTransactions_None by blast
  let ?db1 = "db\<lparr> hypermap_transactions := table \<rparr>"
  obtain out db2 where u: "updateLeaderboardStatsIncremental False ?db1 p (validTransactions r)
       (lastProcessedBlock r) = (out, db2)"
    by (cases "updateLeaderboardStatsIncremental False ?db1 p (validTransactions r)
       (lastProcessedBlock r)") blast
  note ok = updateLeaderboardStatsIncremental_ok [OF u]
  have "snd (applyProviderResult noFaults db p r) = db2"
    using assms i u ok
    by (simp add: applyProviderResult_def updatePaymentRecords_def noFaults_def)
  with ok show ?thesis by (simp add: watermark_def)
qed

lemma settled_by_watermark:
  assumes "watermark db1 p = w" and "w \<le> safe + 1000"
    and "safe < w + 1 \<or> nothingNewAbove U p tba safe w"
  shows "settled U p tba safe db1"
  using assms loadValidatedBlock_sane [of db1 p safe]
  by (simp add: settled_def watermark_def)

lemma matched_Nil_fetch:
  "matchedTransactions p tba (filter P (sort_key f [])) = []"
  by (simp add: matchedTransactions_def map_filter_simps)


text \<open>After one run over the fixed data set, the next run has nothing left to find.\<close>

lemma run_settles: "settled U p tba safe (runOnce step U p tba safe db)"
proof -
  obtain out dbA where l: "loadValidatedBlock db p safe = (out, dbA)"
    by (cases "loadValidatedBlock db p safe") blast
  note c = loadValidatedBlock_cases [OF l]
  show ?thesis
  proof (cases out)
    case (Inl e)
    with l have run: "runOnce step U p tba safe db = dbA"
      by (simp add: runOnce_def reconcileAndApply_def processProviderTransactions_def)
    obtain out' dbA' where l2: "loadValidatedBlock dbA p safe = (out', dbA')"
      by (cases "loadValidatedBlock dbA p safe") blast
    from loadValidatedBlock_cases [OF l2] c Inl have "\<exists>e'. out' = Inl e'"
      by (cases out') auto
    with l2 show ?thesis by (auto simp: run settled_def)
  next
    case (Inr v)
    with l c have l': "loadValidatedBlock db p safe = (Inr v, db)"
      and wv: "watermark db p = v" and small: "v \<le> safe + 1000" and same: "dbA = db"
      by simp_all
    show ?thesis
    proof (cases "safe < v + 1")
      case True
      with l' have run: "runOnce step U p tba safe db = db"
        by (simp add: runOnce_def reconcileAndApply_def processProviderTransactions_def
            applyProviderResult_def)
      from wv small True show ?thesis
        unfolding run by (intro settled_by_watermark [where w = v]) simp_all
    next
      case False
      then have rng: "v + 1 \<le> safe" by simp
      obtain txs where f: "fixedUpstream U (wallet_address p) (v + 1) safe = Inr txs"
        using fixedUpstream_Inr by blast
      let ?lpb = "if txs = [] then min (v + 1 + step) safe
                  else min (maxBlockSeenOf (v + 1) safe txs) safe"
      let ?valid = "matchedTransactions p tba
                      (filter (inRange (v + 1) safe) (sort_key raw_blockNumber txs))"
      let ?r = "\<lparr> validTransactions = ?valid, lastProcessedBlock = ?lpb,
                  reachedSafeHeight = (?lpb \<ge> safe) \<rparr>"
      let ?dbB = "logBlockChange
            (db\<lparr> console_warn := console_warn db
                     @ staleWarnings (v + 1) safe (sort_key raw_blockNumber txs) \<rparr>)
            p v ?lpb (if txs = [] then conservative_advance else normal_advance)"
      have P: "processProviderTransactions step (fixedUpstream U) p tba db safe = (Inr ?r, ?dbB)"
        using process_fetched [where fetch = "fixedUpstream U", OF l' rng f]
        by (simp add: Let_def)
      have run: "runOnce step U p tba safe db = snd (applyProviderResult noFaults ?dbB p ?r)"
        by (simp add: runOnce_def reconcileAndApply_def P)
      have wB: "watermark ?dbB p = v"
        using wv by (simp add: logBlockChange_keeps console_keeps)
      show ?thesis
      proof (cases "?valid = []")
        case True
        then have nn: "nothingNewAbove U p tba safe v"
          using valid_empty_iff [OF f] by simp
        have "snd (applyProviderResult noFaults ?dbB p ?r) = ?dbB"
          using True by (intro applyProviderResult_empty) simp
        with wB nn small show ?thesis
          unfolding run by (intro settled_by_watermark [where w = v]) simp_all
      next
        case False
        then have ne: "txs \<noteq> []" using matched_Nil_fetch by auto
        have "watermark (snd (applyProviderResult noFaults ?dbB p ?r)) p = lastProcessedBlock ?r"
          using False by (intro apply_nonempty_noFaults) simp
        with ne have w1: "watermark (snd (applyProviderResult noFaults ?dbB p ?r)) p
            = min (maxBlockSeenOf (v + 1) safe txs) safe"
          by simp
        show ?thesis
          unfolding run using w1 nothing_above_max [OF f, of tba]
          by (intro settled_by_watermark
              [where w = "min (maxBlockSeenOf (v + 1) safe txs) safe"]) simp_all
      qed
    qed
  qed
qed

text \<open>A run from a settled store changes neither the aggregate, nor the watermark, nor the ledger.\<close>

lemma settled_run_keeps:
  assumes "settled U p tba safe db"
  shows "aggregateStats (runOnce step U p tba safe db) p = aggregateStats db p
       \<and> watermark (runOnce step U p tba safe db) p = watermark db p
       \<and> hypermap_transactions (runOnce step U p tba safe db) = hypermap_transactions db"
proof -
  obtain out dbA where l: "loadValidatedBlock db p safe = (out, dbA)"
    by (cases "loadValidatedBlock db p safe") blast
  note c = loadValidatedBlock_cases [OF l]
  show ?thesis
  proof (cases out)
    case (Inl e)
    with l have run: "runOnce step U p tba safe db = dbA"
      by (simp add: runOnce_def reconcileAndApply_def processProviderTransactions_def)
    with c show ?thesis by simp
  next
    case (Inr v)
    with l c have l': "loadValidatedBlock db p safe = (Inr v, db)" by simp
    show ?thesis
    proof (cases "safe < v + 1")
      case True
      with l' have run: "runOnce step U p tba safe db = db"
        by (simp add: runOnce_def reconcileAndApply_def processProviderTransactions_def
            applyProviderResult_def)
      then show ?thesis by simp
    next
      case False
      then have rng: "v + 1 \<le> safe" by simp
      obtain txs where f: "fixedUpstream U (wallet_address p) (v + 1) safe = Inr txs"
        using fixedUpstream_Inr by blast
      let ?lpb = "if txs = [] then min (v + 1 + step) safe
                  else min (maxBlockSeenOf (v + 1) safe txs) safe"
      let ?valid = "matchedTransactions p tba
                      (filter (inRange (v + 1) safe) (sort_key raw_blockNumber txs))"
      let ?r = "\<lparr> validTransactions = ?valid, lastProcessedBlock = ?lpb,
                  reachedSafeHeight = (?lpb \<ge> safe) \<rparr>"
      let ?dbB = "logBlockChange
            (db\<lparr> console_warn := console_warn db
                     @ staleWarnings (v + 1) safe (sort_key raw_blockNumber txs) \<rparr>)
            p v ?lpb (if txs = [] then conservative_advance else normal_advance)"
      have P: "processProviderTransactions step (fixedUpstream U) p tba db safe = (Inr ?r, ?dbB)"
        using process_fetched [where fetch = "fixedUpstream U", OF l' rng f]
        by (simp add: Let_def)
      have run: "runOnce step U p tba safe db = snd (applyProviderResult noFaults ?dbB p ?r)"
        by (simp add: runOnce_def reconcileAndApply_def P)
      from assms l' False have "nothingNewAbove U p tba safe v"
        by (simp add: settled_def)
      then have e: "validTransactions ?r = []"
        using valid_empty_iff [OF f] by simp
      have "runOnce step U p tba safe db = ?dbB"
        unfolding run using e by (rule applyProviderResult_empty)
      then show ?thesis
        by (simp add: logBlockChange_keeps console_keeps)
    qed
  qed
qed

lemma applyProviderResult_watermark:
  "watermark (snd (applyProviderResult flt db p r)) p = watermark db p
   \<or> (validTransactions r \<noteq> []
       \<and> watermark (snd (applyProviderResult flt db p r)) p = lastProcessedBlock r)"
proof (cases "validTransactions r = []")
  case True
  from applyProviderResult_empty [OF True, of flt db p] show ?thesis by simp
next
  case False
  obtain table where i: "insertTransactions None (full_name p) (validTransactions r)
      (hypermap_transactions db) = Inr table"
    using insertTransactions_None by blast
  let ?db1 = "db\<lparr> hypermap_transactions := table \<rparr>"
  have w1: "watermark ?db1 p = watermark db p"
    by (simp add: watermark_def getProviderCurrentStats_def)
  show ?thesis
  proof (cases "insertRejected flt (validTransactions r)")
    case True
    with False show ?thesis
      by (simp add: applyProviderResult_def updatePaymentRecords_def insertTransactions_faults)
  next
    case nr: False
    show ?thesis
    proof (cases "rejectStatsUpsert flt")
      case True
      with False nr i w1 show ?thesis
        by (simp add: applyProviderResult_def updatePaymentRecords_def insertTransactions_faults
            updateLeaderboardStatsIncremental_def Let_def)
    next
      case ns: False
      obtain out db2 where u: "updateLeaderboardStatsIncremental False ?db1 p (validTransactions r)
           (lastProcessedBlock r) = (out, db2)"
        by (cases "updateLeaderboardStatsIncremental False ?db1 p (validTransactions r)
           (lastProcessedBlock r)") blast
      note ok = updateLeaderboardStatsIncremental_ok [OF u]
      have "snd (applyProviderResult flt db p r) = db2"
        using False nr ns i u ok
        by (simp add: applyProviderResult_def updatePaymentRecords_def insertTransactions_faults)
      with ok False show ?thesis by (simp add: watermark_def)
    qed
  qed
qed

text \<open>
  The stored watermark over one reconcile-and-apply, for any step, any source and any
  faults: it never decreases, and it stays at or below the safe height when it was.
\<close>

lemma run_watermark_bounds:
  "watermark db p \<le> watermark (snd (reconcileAndApply step fetch flt p tba db safe)) p
   \<and> (watermark db p \<le> safe \<longrightarrow>
        watermark (snd (reconcileAndApply step fetch flt p tba db safe)) p \<le> safe)"
proof -
  let ?w = "watermark db p"
  obtain out dbA where l: "loadValidatedBlock db p safe = (out, dbA)"
    by (cases "loadValidatedBlock db p safe") blast
  note c = loadValidatedBlock_cases [OF l]
  show ?thesis
  proof (cases out)
    case (Inl e)
    with l have "snd (reconcileAndApply step fetch flt p tba db safe) = dbA"
      by (simp add: reconcileAndApply_def processProviderTransactions_def)
    with c Inl show ?thesis by simp
  next
    case (Inr v)
    with l c have l': "loadValidatedBlock db p safe = (Inr ?w, db)" by simp
    show ?thesis
    proof (cases "safe < ?w + 1")
      case True
      with l' show ?thesis
        by (simp add: reconcileAndApply_def processProviderTransactions_def
            applyProviderResult_def)
    next
      case False
      then have rng: "?w + 1 \<le> safe" by simp
      show ?thesis
      proof (cases "fetch (wallet_address p) (?w + 1) safe")
        case (Inl e)
        with l' rng show ?thesis
          by (simp add: reconcileAndApply_def processProviderTransactions_def)
      next
        case (Inr txs)
        let ?lpb = "if txs = [] then min (?w + 1 + step) safe
                    else min (maxBlockSeenOf (?w + 1) safe txs) safe"
        let ?valid = "matchedTransactions p tba
                        (filter (inRange (?w + 1) safe) (sort_key raw_blockNumber txs))"
        let ?r = "\<lparr> validTransactions = ?valid,
                    lastProcessedBlock = ?lpb, reachedSafeHeight = (?lpb \<ge> safe) \<rparr>"
        let ?dbB = "logBlockChange
              (db\<lparr> console_warn := console_warn db
                       @ staleWarnings (?w + 1) safe (sort_key raw_blockNumber txs) \<rparr>)
              p ?w ?lpb (if txs = [] then conservative_advance else normal_advance)"
        have P: "processProviderTransactions step fetch p tba db safe = (Inr ?r, ?dbB)"
          using process_fetched [where fetch = fetch, OF l' rng Inr] by (simp add: Let_def)
        have run: "snd (reconcileAndApply step fetch flt p tba db safe)
                     = snd (applyProviderResult flt ?dbB p ?r)"
          by (simp add: reconcileAndApply_def P)
        have wB: "watermark ?dbB p = ?w" by (simp add: logBlockChange_keeps console_keeps)
        have mb: "?w \<le> maxBlockSeenOf (?w + 1) safe txs
                  \<and> maxBlockSeenOf (?w + 1) safe txs \<le> safe"
          using maxBlockSeenOf_bounds [where fromBlock = "?w + 1" and safe = safe and txs = txs]
            rng by simp
        have ne: "?valid \<noteq> [] \<longrightarrow> txs \<noteq> []" using matched_Nil_fetch by auto
        from applyProviderResult_watermark [of flt ?dbB p ?r]
        have "watermark (snd (applyProviderResult flt ?dbB p ?r)) p = ?w
              \<or> watermark (snd (applyProviderResult flt ?dbB p ?r)) p
                   = min (maxBlockSeenOf (?w + 1) safe txs) safe"
          using wB ne by auto
        with mb rng show ?thesis unfolding run by auto
      qed
    qed
  qed
qed

text \<open>
  C6. Over any fixed upstream data set, from any store, for any step and safe height: a
  second reconcile-and-apply right after the first, with no database fault, leaves the
  provider's aggregate statistics, its watermark and the whole ledger exactly as the
  first run left them. The second run returns no transaction, because nothing new lies
  above the watermark the first run stored, and without transactions the loop body
  writes nothing.
\<close>

theorem C6_second_run_adds_nothing:
  "aggregateStats (runOnce step U p tba safe (runOnce step U p tba safe db)) p
     = aggregateStats (runOnce step U p tba safe db) p
   \<and> watermark (runOnce step U p tba safe (runOnce step U p tba safe db)) p
     = watermark (runOnce step U p tba safe db) p
   \<and> hypermap_transactions (runOnce step U p tba safe (runOnce step U p tba safe db))
     = hypermap_transactions (runOnce step U p tba safe db)"
  using settled_run_keeps [OF run_settles] by simp


lemma lower_wallet: "toLowerCase ''0xabc'' = ''0xabc''"
  by code_simp

lemma scenario_fetch_all:
  "fixedUpstream scenarioTransfers (wallet_address exampleProvider) (0 + 1) 100
     = Inr scenarioTransfers"
  by (simp add: fixedUpstream_def scenarioTransfers_def exampleTransfer_def exampleProvider_def
      lower_wallet)

lemma watermark_storeAt: "watermark (storeAt n) exampleProvider = n"
  by (simp add: watermark_def stats_storeAt)

lemma scenario_first_run:
  "watermark (runOnce 100 scenarioTransfers exampleProvider exampleAllowList 100 (storeAt 0))
     exampleProvider = 90"
proof -
  have l: "loadValidatedBlock (storeAt 0) exampleProvider 100 = (Inr 0, storeAt 0)"
    by (rule load_storeAt) simp
  have m: "maxBlockSeenOf 1 100 scenarioTransfers = 90"
    by (simp add: maxBlockSeenOf_def scenarioTransfers_def exampleTransfer_def inRange_def)
  have f: "filter (inRange 1 100) scenarioTransfers = scenarioTransfers"
    by (simp add: scenarioTransfers_def exampleTransfer_def inRange_def)
  have mt: "matchedTransactions exampleProvider exampleAllowList scenarioTransfers \<noteq> []"
    by (simp add: matchedTransactions_def scenarioTransfers_def map_filter_simps
        exampleAllowList_def lower_examples exampleTransfer_def)
  have ne: "scenarioTransfers \<noteq> []" by (simp add: scenarioTransfers_def)
  obtain dbB where P: "processProviderTransactions 100 (fixedUpstream scenarioTransfers)
      exampleProvider exampleAllowList (storeAt 0) 100 =
      (Inr \<lparr> validTransactions = matchedTransactions exampleProvider exampleAllowList scenarioTransfers,
             lastProcessedBlock = 90, reachedSafeHeight = False \<rparr>, dbB)"
    using process_fetched [where fetch = "fixedUpstream scenarioTransfers" and step = 100
        and tba = exampleAllowList, OF l _ scenario_fetch_all]
    by (simp add: scenario_sorted m f ne)
  show ?thesis
    using apply_nonempty_noFaults [where db = dbB and p = exampleProvider and
        r = "\<lparr> validTransactions = matchedTransactions exampleProvider exampleAllowList scenarioTransfers,
             lastProcessedBlock = 90, reachedSafeHeight = False \<rparr>"] mt
    by (simp add: runOnce_def reconcileAndApply_def P)
qed

theorem C6_second_run_adds_nothing_witness:
  "watermark (runOnce 100 scenarioTransfers exampleProvider exampleAllowList 100 (storeAt 0))
     exampleProvider = 90
   \<and> watermark (runOnce 100 scenarioTransfers exampleProvider exampleAllowList 100
        (runOnce 100 scenarioTransfers exampleProvider exampleAllowList 100 (storeAt 0)))
     exampleProvider = 90"
  using C6_second_run_adds_nothing [where step = 100 and U = scenarioTransfers and p = exampleProvider
      and tba = exampleAllowList and safe = 100 and db = "storeAt 0"] scenario_first_run
  by simp

lemma process_above_safe_example:
  "processProviderTransactions 100 (\<lambda>w a b. Inr []) exampleProvider exampleAllowList
     (storeAt 605) 600 =
   (Inr \<lparr> validTransactions = [], lastProcessedBlock = 605, reachedSafeHeight = False \<rparr>,
    storeAt 605)"
  using caught_up_is_noop [where step = 100 and fetch = "\<lambda>w a b. Inr []"
      and tba = exampleAllowList, OF load_storeAt [of 605 600]]
  by simp

text \<open>
  C1, counterexample. A stored watermark of 605 with safe height 600 needs no repair
  (it is within 1000 blocks of the safe height); the engine returns it unchanged, and 605
  exceeds the safe height of the run.
\<close>

theorem C1_exceeds_safe_height_counterexample:
  "fst (processProviderTransactions 100 (\<lambda>w a b. Inr []) exampleProvider exampleAllowList
          (storeAt 605) 600) =
     Inr \<lparr> validTransactions = [], lastProcessedBlock = 605, reachedSafeHeight = False \<rparr>
   \<and> (600::int) < 605"
  by (simp add: process_above_safe_example)

text \<open>
  C1, as amended. With a non-negative conservative step and \<open>wm\<close> the stored
  watermark before the run: a watermark returned by the engine is never below \<open>wm\<close>,
  and is at most the safe height when \<open>wm\<close> is; the engine can end in an error only
  when \<open>wm\<close> is more than 1000 blocks above the safe height or when the transaction
  source fails. A watermark above the safe height by at most 1000 is returned unchanged,
  so above the safe height, and nothing is written. Over reconcile and apply, whatever
  the faults, the stored watermark never decreases, and it stays at or below the safe
  height when it was.
\<close>

theorem C1_watermark_never_decreases:
  assumes "0 \<le> step" and "wm = watermark db p"
  shows "(case fst (processProviderTransactions step fetch p tba db safe) of
            Inr r \<Rightarrow> wm \<le> lastProcessedBlock r \<and> (wm \<le> safe \<longrightarrow> lastProcessedBlock r \<le> safe)
          | Inl e \<Rightarrow> safe + 1000 < wm
                     \<or> (wm < safe \<and> fetch (wallet_address p) (wm + 1) safe = Inl e))
       \<and> (safe < wm \<and> wm \<le> safe + 1000 \<longrightarrow>
            processProviderTransactions step fetch p tba db safe =
              (Inr \<lparr> validTransactions = [], lastProcessedBlock = wm,
                     reachedSafeHeight = False \<rparr>, db))
       \<and> wm \<le> watermark (snd (reconcileAndApply step fetch flt p tba db safe)) p
       \<and> (wm \<le> safe \<longrightarrow>
            watermark (snd (reconcileAndApply step fetch flt p tba db safe)) p \<le> safe)"
proof -
  obtain out dbA where l: "loadValidatedBlock db p safe = (out, dbA)"
    by (cases "loadValidatedBlock db p safe") blast
  note c = loadValidatedBlock_cases [OF l]
  have ret: "case fst (processProviderTransactions step fetch p tba db safe) of
            Inr r \<Rightarrow> wm \<le> lastProcessedBlock r \<and> (wm \<le> safe \<longrightarrow> lastProcessedBlock r \<le> safe)
          | Inl e \<Rightarrow> safe + 1000 < wm
                     \<or> (wm < safe \<and> fetch (wallet_address p) (wm + 1) safe = Inl e)"
  proof (cases out)
    case (Inl e)
    with l c assms(2) show ?thesis by (simp add: processProviderTransactions_def)
  next
    case (Inr v)
    with l c assms(2) have l': "loadValidatedBlock db p safe = (Inr wm, db)" by simp
    show ?thesis
    proof (cases "safe < wm + 1")
      case True
      with l' show ?thesis by (simp add: processProviderTransactions_def)
    next
      case False
      then have rng: "wm + 1 \<le> safe" by simp
      show ?thesis
      proof (cases "fetch (wallet_address p) (wm + 1) safe")
        case (Inl e)
        with l' rng show ?thesis by (simp add: processProviderTransactions_def)
      next
        case (Inr txs)
        have "wm \<le> maxBlockSeenOf (wm + 1) safe txs \<and> maxBlockSeenOf (wm + 1) safe txs \<le> safe"
          using maxBlockSeenOf_bounds [where fromBlock = "wm + 1" and safe = safe and txs = txs]
            rng by simp
        with rng assms(1) show ?thesis
          by (simp add: process_fetched [where fetch = fetch, OF l' rng Inr] Let_def)
      qed
    qed
  qed
  have mid: "safe < wm \<and> wm \<le> safe + 1000 \<longrightarrow>
            processProviderTransactions step fetch p tba db safe =
              (Inr \<lparr> validTransactions = [], lastProcessedBlock = wm,
                     reachedSafeHeight = False \<rparr>, db)"
    using loadValidatedBlock_sane [of db p safe] assms(2)
    by (simp add: processProviderTransactions_def watermark_def)
  from ret mid run_watermark_bounds [of db p step fetch flt tba safe] assms(2)
  show ?thesis by simp
qed

theorem C1_watermark_never_decreases_witness:
  "(0::int) \<le> 100
   \<and> (case fst (processProviderTransactions 100 (\<lambda>w a b. Inr []) exampleProvider
                  exampleAllowList (storeAt 0) 1000) of
         Inr r \<Rightarrow> 0 \<le> lastProcessedBlock r \<and> lastProcessedBlock r \<le> 1000
       | Inl e \<Rightarrow> False)
   \<and> (600::int) < 605 \<and> (605::int) \<le> 600 + 1000
   \<and> processProviderTransactions 100 (\<lambda>w a b. Inr []) exampleProvider exampleAllowList
        (storeAt 605) 600 =
        (Inr \<lparr> validTransactions = [], lastProcessedBlock = 605,
               reachedSafeHeight = False \<rparr>, storeAt 605)
   \<and> 0 \<le> watermark (snd (reconcileAndApply 100 (\<lambda>w a b. Inr []) noFaults exampleProvider
               exampleAllowList (storeAt 0) 1000)) exampleProvider
   \<and> watermark (snd (reconcileAndApply 100 (\<lambda>w a b. Inr []) noFaults exampleProvider
               exampleAllowList (storeAt 0) 1000)) exampleProvider \<le> 1000"
proof -
  have s: "(0::int) \<le> 100" by simp
  note a = C1_watermark_never_decreases [where step = 100 and fetch = "\<lambda>w a b. Inr []" and p = exampleProvider
      and tba = exampleAllowList and db = "storeAt 0" and safe = 1000 and wm = 0
      and flt = noFaults, OF s watermark_storeAt [symmetric]]
  note b = C1_watermark_never_decreases [where step = 100 and fetch = "\<lambda>w a b. Inr []" and p = exampleProvider
      and tba = exampleAllowList and db = "storeAt 605" and safe = 600 and wm = 605
      and flt = noFaults, OF s watermark_storeAt [symmetric]]
  have 1: "case fst (processProviderTransactions 100 (\<lambda>w a b. Inr []) exampleProvider
                  exampleAllowList (storeAt 0) 1000) of
         Inr r \<Rightarrow> 0 \<le> lastProcessedBlock r \<and> lastProcessedBlock r \<le> 1000
       | Inl e \<Rightarrow> False"
  proof (cases "fst (processProviderTransactions 100 (\<lambda>w a b. Inr []) exampleProvider
                  exampleAllowList (storeAt 0) 1000)")
    case (Inl e)
    with a show ?thesis by simp
  next
    case (Inr r)
    with a show ?thesis by simp
  qed
  have 2: "processProviderTransactions 100 (\<lambda>w a b. Inr []) exampleProvider exampleAllowList
        (storeAt 605) 600 =
        (Inr \<lparr> validTransactions = [], lastProcessedBlock = 605,
               reachedSafeHeight = False \<rparr>, storeAt 605)"
    using b by simp
  have 4: "0 \<le> watermark (snd (reconcileAndApply 100 (\<lambda>w a b. Inr []) noFaults exampleProvider
               exampleAllowList (storeAt 0) 1000)) exampleProvider
     \<and> watermark (snd (reconcileAndApply 100 (\<lambda>w a b. Inr []) noFaults exampleProvider
               exampleAllowList (storeAt 0) 1000)) exampleProvider \<le> 1000"
    using a by simp
  from 1 2 4 show ?thesis by simp
qed

end
